theory Spec2Isabelle
  imports Main
begin

section \<open>Strings\<close>

text \<open>
  A JavaScript string is modelled as a \<^typ>\<open>string\<close>: a list of code units, here the
  code units below 256.  The library methods the use cases call are written out:
  \<^verbatim>\<open>s.startsWith(p)\<close>, \<^verbatim>\<open>s.endsWith(p)\<close>, \<^verbatim>\<open>s.slice(0, -1)\<close> and
  \<^verbatim>\<open>s.trim()\<close>.
\<close>

definition startsWith :: "string \<Rightarrow> string \<Rightarrow> bool" where
  "startsWith s p = (take (length p) s = p)"

definition endsWith :: "string \<Rightarrow> string \<Rightarrow> bool" where
  "endsWith s p = (length p \<le> length s \<and> drop (length s - length p) s = p)"

text \<open>\<^verbatim>\<open>s.slice(0, -1)\<close>: every code unit but the last; the empty string stays empty.\<close>

definition slice_0_minus1 :: "string \<Rightarrow> string" where
  "slice_0_minus1 s = take (length s - 1) s"

text \<open>
  The white space of \<^verbatim>\<open>String.prototype.trim\<close> among the code units below 256:
  tab, line feed, vertical tab, form feed, carriage return, space and no-break space.
\<close>

definition isWhiteSpace :: "char \<Rightarrow> bool" where
  "isWhiteSpace c = (of_char c \<in> {9, 10, 11, 12, 13, 32, 160 :: nat})"

definition trim :: "string \<Rightarrow> string" where
  "trim s = rev (dropWhile isWhiteSpace (rev (dropWhile isWhiteSpace s)))"

section \<open>CreateShortUrl._normalizeUrl\<close>

text \<open>
  \<^verbatim>\<open>
  _normalizeUrl(url) {
    if (!url.startsWith('http://') && !url.startsWith('https://')) {
      url = 'https://' + url;
    }
    if (url.endsWith('/')) {
      url = url.slice(0, -1);
    }
    return url;
  }
  \<close>
  The two steps are kept apart: \<open>ensureProtocol\<close> is the first conditional,
  \<open>normalizeUrl\<close> the whole method.
\<close>

definition hasProtocol :: "string \<Rightarrow> bool" where
  "hasProtocol url = (startsWith url ''http://'' \<or> startsWith url ''https://'')"

definition ensureProtocol :: "string \<Rightarrow> string" where
  "ensureProtocol url = (if \<not> startsWith url ''http://'' \<and> \<not> startsWith url ''https://''
     then ''https://'' @ url else url)"

definition normalizeUrl :: "string \<Rightarrow> string" where
  "normalizeUrl url =
     (let url1 = ensureProtocol url
      in if endsWith url1 ''/'' then slice_0_minus1 url1 else url1)"

section \<open>CreateShortUrl._isValidCustomAlias\<close>

text \<open>
  \<^verbatim>\<open>
  _isValidCustomAlias(alias) {
    const regex = /^[a-zA-Z0-9-_]+$/;
    return regex.test(alias) && alias.length >= 3 && alias.length <= 50;
  }
  \<close>
\<close>

definition isAliasChar :: "char \<Rightarrow> bool" where
  "isAliasChar c =
     (let n = (of_char c :: nat)
      in (97 \<le> n \<and> n \<le> 122) \<or> (65 \<le> n \<and> n \<le> 90) \<or> (48 \<le> n \<and> n \<le> 57)
         \<or> c = CHR ''-'' \<or> c = CHR ''_'')"

definition isValidCustomAlias :: "string \<Rightarrow> bool" where
  "isValidCustomAlias alias =
     ((alias \<noteq> [] \<and> list_all isAliasChar alias) \<and> 3 \<le> length alias \<and> length alias \<le> 50)"

section \<open>Data model\<close>

text \<open>A \<^verbatim>\<open>Date\<close> is its number of milliseconds since the epoch.\<close>

type_synonym date = int

text \<open>
  The argument of \<^verbatim>\<open>CreateShortUrl.execute\<close>; \<open>None\<close> is \<^verbatim>\<open>null\<close> (the default
  of the three optional fields).
\<close>

record urlData =
  originalUrl :: string
  customAlias :: "string option"
  userId :: "string option"
  expiresAt :: "date option"

text \<open>
  The \<^verbatim>\<open>Url\<close> entity and the document of the \<^verbatim>\<open>UrlModel\<close> collection: the fields of
  \<^verbatim>\<open>Url.toObject()\<close>.
\<close>

record url_doc = urlData +
  shortCode :: string
  createdAt :: date
  isActive :: bool

text \<open>The data handed to \<^verbatim>\<open>analyticsService.recordClick\<close>.\<close>

record click =
  click_shortCode :: string
  click_ip :: "string option"
  click_userAgent :: "string option"
  click_referrer :: "string option"

text \<open>The optional \<^verbatim>\<open>requestData\<close> of a resolution.\<close>

record requestData =
  ip :: "string option"
  userAgent :: "string option"
  referrer :: "string option"

datatype store_error = DuplicateKey | ValidationFailed | StoreUnavailable

text \<open>
  Every \<^verbatim>\<open>throw\<close> of the use cases, by its message; an error thrown by the record store
  passes through them as it is.
\<close>

datatype error =
    ShortCodeRequired
  | UrlNotFound
  | LinkDeactivated
  | LinkExpired
  | InvalidAliasFormat
  | AliasInUse
  | OriginalUrlRequired
  | InvalidUrlFormat
  | StoreError store_error
  | CacheError
  | TypeError

datatype store_op =
    OpFindByShortCode | OpFindByOriginalUrl | OpCreate | OpShortCodeExists | OpCustomAliasExists
  | OpGetReferrerStats

text \<open>
  How a cache operation can fail and settle: \<open>ConnectFails\<close> is \<^verbatim>\<open>redisClient.connect()\<close> throwing,
  before the \<^verbatim>\<open>try\<close> of the client method, so the exception leaves the cache repository;
  \<open>CommandFails\<close> is the Redis command throwing inside that \<^verbatim>\<open>try\<close>, where the client
  catches it.  A call that fails without settling, because Redis cannot be reached, has no
  result of this kind: the type \<open>awaited\<close> and the definitions on an unreachable Redis,
  further down, are for it.
\<close>

datatype cache_fault = ConnectFails | CommandFails

text \<open>
  The state the use cases run against.
  \<^item> \<open>urls\<close>: the documents of \<^verbatim>\<open>UrlModel\<close>, in insertion order.
  \<^item> \<open>storeFaults\<close>: the repository methods that throw (the record store is unreachable for
    them).
  \<^item> \<open>cache\<close>: the Redis keys that hold a string, each with the instant at which it expires.
  \<^item> \<open>cacheGetFault\<close>, \<open>cacheSetFault\<close>: whether and how the next \<^verbatim>\<open>get\<close> and
    \<^verbatim>\<open>set\<close> fail.
  \<^item> \<open>now\<close>: what \<^verbatim>\<open>new Date()\<close> returns.
  \<^item> \<open>configRedisTtl\<close>: \<^verbatim>\<open>config.redis.ttl\<close>, in seconds.
  \<^item> \<open>urlLength\<close>: the field \<^verbatim>\<open>this.urlLength\<close> of the \<^verbatim>\<open>CreateShortUrl\<close> instance.
  \<^item> \<open>entropy\<close>: the results of the calls of \<^verbatim>\<open>nanoid\<close> still to come, each as a function of
    the size it is called with.
  \<^item> \<open>pendingClicks\<close>: the calls of \<^verbatim>\<open>analyticsService.recordClick\<close> started and not
    awaited.
  \<^item> \<open>analytics\<close>: the documents of \<^verbatim>\<open>AnalyticsModel\<close>, by the fields a click is recorded
    with.
  \<^item> \<open>statsCache\<close>: the Redis keys that hold referrer rows.  The keys of \<open>cache\<close> begin
    with \<open>url:\<close> and these with \<open>analytics:\<close>, so the two never meet, and each is given
    the type of the values the program stores under it.
\<close>

record world =
  urls :: "url_doc list"
  storeFaults :: "store_op set"
  cache :: "string \<rightharpoonup> string \<times> date"
  cacheGetFault :: "cache_fault option"
  cacheSetFault :: "cache_fault option"
  now :: date
  configRedisTtl :: nat
  urlLength :: nat
  entropy :: "(nat \<Rightarrow> string) list"
  pendingClicks :: "click list"
  analytics :: "click list"
  statsCache :: "string \<rightharpoonup> (string \<times> nat) list \<times> date"

section \<open>MongoUrlRepository\<close>

text \<open>
  Each method is \<^verbatim>\<open>try { ... } catch (error) { console.error(...); throw error; }\<close>: an
  error of the store is rethrown.  The schema of \<^verbatim>\<open>UrlModel\<close> declares \<^verbatim>\<open>originalUrl\<close>,
  \<^verbatim>\<open>shortCode\<close> and \<^verbatim>\<open>customAlias\<close> with \<^verbatim>\<open>trim: true\<close>, which Mongoose applies to the
  values it stores and to the values of a query filter; \<^verbatim>\<open>originalUrl\<close> and \<^verbatim>\<open>shortCode\<close> are
  \<^verbatim>\<open>required\<close>, and \<^verbatim>\<open>shortCode\<close> is \<^verbatim>\<open>unique\<close>.
\<close>

definition findByShortCode :: "world \<Rightarrow> string \<Rightarrow> error + url_doc option" where
  "findByShortCode w code =
     (if OpFindByShortCode \<in> storeFaults w then Inl (StoreError StoreUnavailable)
      else Inr (find (\<lambda>d. shortCode d = trim code) (urls w)))"

definition findByOriginalUrl :: "world \<Rightarrow> string \<Rightarrow> error + url_doc option" where
  "findByOriginalUrl w url =
     (if OpFindByOriginalUrl \<in> storeFaults w then Inl (StoreError StoreUnavailable)
      else Inr (find (\<lambda>d. originalUrl d = trim url) (urls w)))"

definition shortCodeExists :: "world \<Rightarrow> string \<Rightarrow> error + bool" where
  "shortCodeExists w code =
     (if OpShortCodeExists \<in> storeFaults w then Inl (StoreError StoreUnavailable)
      else Inr (0 < length (filter (\<lambda>d. shortCode d = trim code) (urls w))))"

definition customAliasExists :: "world \<Rightarrow> string \<Rightarrow> error + bool" where
  "customAliasExists w alias =
     (if OpCustomAliasExists \<in> storeFaults w then Inl (StoreError StoreUnavailable)
      else Inr (0 < length (filter (\<lambda>d. customAlias d = Some (trim alias)) (urls w))))"

text \<open>
  \<^verbatim>\<open>create(urlData)\<close>: \<^verbatim>\<open>new UrlModel(urlData)\<close> trims the three strings, \<^verbatim>\<open>save()\<close>
  validates the required fields and inserts; the unique index on \<^verbatim>\<open>shortCode\<close> rejects a
  second document with the same code.
\<close>

definition castUrlDoc :: "url_doc \<Rightarrow> url_doc" where
  "castUrlDoc u = u\<lparr>originalUrl := trim (originalUrl u),
                     customAlias := map_option trim (customAlias u),
                     shortCode := trim (shortCode u)\<rparr>"

definition create :: "world \<Rightarrow> url_doc \<Rightarrow> (error + url_doc) \<times> world" where
  "create w u =
     (if OpCreate \<in> storeFaults w then (Inl (StoreError StoreUnavailable), w)
      else
        let doc = castUrlDoc u
        in if originalUrl doc = [] \<or> shortCode doc = []
           then (Inl (StoreError ValidationFailed), w)
           else if list_ex (\<lambda>d. shortCode d = shortCode doc) (urls w)
           then (Inl (StoreError DuplicateKey), w)
           else (Inr doc, w\<lparr>urls := urls w @ [doc]\<rparr>))"

section \<open>RedisClient and RedisCacheRepository\<close>

text \<open>
  \<^verbatim>\<open>redisClient.get(key)\<close> connects (which may throw), then returns the parsed value or,
  when the key is absent or the command throws, \<^verbatim>\<open>null\<close>.  \<^verbatim>\<open>redisClient.set(key, value,
  ttl)\<close> connects, then stores the value with \<^verbatim>\<open>EX: ttl || this.defaultTtl\<close>, where
  \<^verbatim>\<open>defaultTtl = config.redis.ttl || 86400\<close>, and returns \<^verbatim>\<open>true\<close>, or \<^verbatim>\<open>false\<close> when the
  command throws.  \<^verbatim>\<open>RedisCacheRepository\<close> passes both calls through.
\<close>

definition cacheRepository_get :: "world \<Rightarrow> string \<Rightarrow> error + string option" where
  "cacheRepository_get w key =
     (case cacheGetFault w of
        Some ConnectFails \<Rightarrow> Inl CacheError
      | Some CommandFails \<Rightarrow> Inr None
      | None \<Rightarrow>
          Inr (case cache w key of
                 None \<Rightarrow> None
               | Some (v, expiry) \<Rightarrow> if now w < expiry then Some v else None))"

definition defaultTtl :: "world \<Rightarrow> nat" where
  "defaultTtl w = (if configRedisTtl w = 0 then 86400 else configRedisTtl w)"

definition cacheRepository_set ::
    "world \<Rightarrow> string \<Rightarrow> string \<Rightarrow> nat option \<Rightarrow> (error + bool) \<times> world" where
  "cacheRepository_set w key v ttl =
     (case cacheSetFault w of
        Some ConnectFails \<Rightarrow> (Inl CacheError, w)
      | Some CommandFails \<Rightarrow> (Inr False, w)
      | None \<Rightarrow>
          let ttlToUse = (case ttl of None \<Rightarrow> defaultTtl w
                          | Some t \<Rightarrow> if t = 0 then defaultTtl w else t)
          in (Inr True, w\<lparr>cache := (cache w)(key \<mapsto> (v, now w + 1000 * int ttlToUse))\<rparr>))"

section \<open>The Url entity\<close>

text \<open>
  The constructor stores its fields and calls \<^verbatim>\<open>_validate()\<close>, whose last check is
  \<^verbatim>\<open>new URL(this.originalUrl)\<close>.  The URL parser belongs to the platform, not to this
  program: it is the parameter \<open>parses\<close>, true of the strings the constructor \<^verbatim>\<open>URL\<close>
  accepts.
\<close>

definition new_Url :: "(string \<Rightarrow> bool) \<Rightarrow> url_doc \<Rightarrow> error + url_doc" where
  "new_Url parses u =
     (if originalUrl u = [] then Inl OriginalUrlRequired
      else if shortCode u = [] then Inl ShortCodeRequired
      else if \<not> parses (originalUrl u) then Inl InvalidUrlFormat
      else Inr u)"

section \<open>CreateShortUrl\<close>

text \<open>
  \<^verbatim>\<open>_generateUniqueShortCode\<close>:
  \<^verbatim>\<open>
    let attempts = 0; const maxAttempts = 5;
    do {
      shortCode = nanoid(this.urlLength);
      exists = await this.urlRepository.shortCodeExists(shortCode);
      attempts++;
      if (attempts >= maxAttempts) { this.urlLength += 1; attempts = 0; }
    } while (exists);
    return shortCode;
  \<close>
  One iteration takes the next result of \<^verbatim>\<open>nanoid\<close>.  The loop need not end; on a finite
  supply of results it gives \<open>None\<close> when they run out before a free code is drawn.
  The result carries the new \<^verbatim>\<open>this.urlLength\<close> and the results left.
\<close>

fun generateLoop ::
    "world \<Rightarrow> nat \<Rightarrow> nat \<Rightarrow> (nat \<Rightarrow> string) list
       \<Rightarrow> ((error + string) \<times> nat \<times> (nat \<Rightarrow> string) list) option" where
  "generateLoop w len attempts [] = None"
| "generateLoop w len attempts (d # ds) =
     (let code = d len
      in case shortCodeExists w code of
           Inl e \<Rightarrow> Some (Inl e, len, ds)
         | Inr exists \<Rightarrow>
             let attempts1 = attempts + 1;
                 len1 = (if attempts1 \<ge> 5 then len + 1 else len);
                 attempts2 = (if attempts1 \<ge> 5 then 0 else attempts1)
             in if exists then generateLoop w len1 attempts2 ds
                else Some (Inr code, len1, ds))"

definition generateUniqueShortCode :: "world \<Rightarrow> ((error + string) \<times> world) option" where
  "generateUniqueShortCode w =
     (case generateLoop w (urlLength w) 0 (entropy w) of
        None \<Rightarrow> None
      | Some (r, len, ds) \<Rightarrow> Some (r, w\<lparr>urlLength := len, entropy := ds\<rparr>))"

text \<open>
  \<^verbatim>\<open>_cacheUrl(shortCode, longUrl)\<close>: the \<^verbatim>\<open>set\<close> with \<^verbatim>\<open>config.redis.ttl\<close> inside
  \<^verbatim>\<open>try/catch\<close>; nothing is returned and nothing is thrown.
\<close>

definition CreateShortUrl_cacheUrl :: "world \<Rightarrow> string \<Rightarrow> string \<Rightarrow> world" where
  "CreateShortUrl_cacheUrl w code longUrl =
     snd (cacheRepository_set w (''url:'' @ code) longUrl (Some (configRedisTtl w)))"

text \<open>A JavaScript condition on an optional string: \<^verbatim>\<open>null\<close> and \<^verbatim>\<open>''\<close> are falsy.\<close>

definition truthy :: "string option \<Rightarrow> bool" where
  "truthy v = (case v of None \<Rightarrow> False | Some s \<Rightarrow> s \<noteq> [])"

text \<open>
  Lines 44 to 62 of \<^verbatim>\<open>execute\<close>: the custom alias, checked for its format and then against
  the store, or else a generated code.
\<close>

definition selectShortCode :: "world \<Rightarrow> string option \<Rightarrow> ((error + string) \<times> world) option" where
  "selectShortCode w alias =
     (if truthy alias then
        (if \<not> isValidCustomAlias (the alias) then Some (Inl InvalidAliasFormat, w)
         else case customAliasExists w (the alias) of
                Inl e \<Rightarrow> Some (Inl e, w)
              | Inr aliasExists \<Rightarrow>
                  if aliasExists then Some (Inl AliasInUse, w) else Some (Inr (the alias), w))
      else generateUniqueShortCode w)"

text \<open>
  \<^verbatim>\<open>execute({ originalUrl, customAlias = null, userId = null, expiresAt = null })\<close>.
  \<open>None\<close>: the generation loop did not end on the supply of \<^verbatim>\<open>nanoid\<close> results.
\<close>

definition CreateShortUrl_execute ::
    "(string \<Rightarrow> bool) \<Rightarrow> world \<Rightarrow> urlData \<Rightarrow> ((error + url_doc) \<times> world) option" where
  "CreateShortUrl_execute parses w input =
     (let normalizedUrl = normalizeUrl (originalUrl input)
      in case findByOriginalUrl w normalizedUrl of
           Inl e \<Rightarrow> Some (Inl e, w)
         | Inr (Some existingUrl) \<Rightarrow> Some (Inr existingUrl, w)
         | Inr None \<Rightarrow>
             (case selectShortCode w (customAlias input) of
                None \<Rightarrow> None
              | Some (Inl e, w1) \<Rightarrow> Some (Inl e, w1)
              | Some (Inr code, w1) \<Rightarrow>
                  (case new_Url parses
                          \<lparr>originalUrl = normalizedUrl, customAlias = customAlias input,
                           userId = userId input, expiresAt = expiresAt input,
                           shortCode = code, createdAt = now w1, isActive = True\<rparr> of
                     Inl e \<Rightarrow> Some (Inl e, w1)
                   | Inr url \<Rightarrow>
                       (case create w1 url of
                          (Inl e, w2) \<Rightarrow> Some (Inl e, w2)
                        | (Inr createdUrl, w2) \<Rightarrow>
                            Some (Inr createdUrl,
                                  CreateShortUrl_cacheUrl w2 code normalizedUrl)))))"

section \<open>ResolveUrl\<close>

text \<open>
  \<^verbatim>\<open>_getFromCache\<close> turns an exception of the cache repository into \<^verbatim>\<open>null\<close>;
  \<^verbatim>\<open>_cacheUrl\<close> calls \<^verbatim>\<open>set\<close> without a ttl and swallows an exception.
\<close>

definition getFromCache :: "world \<Rightarrow> string \<Rightarrow> string option" where
  "getFromCache w code =
     (case cacheRepository_get w (''url:'' @ code) of Inl e \<Rightarrow> None | Inr v \<Rightarrow> v)"

definition ResolveUrl_cacheUrl :: "world \<Rightarrow> string \<Rightarrow> string \<Rightarrow> world" where
  "ResolveUrl_cacheUrl w code url = snd (cacheRepository_set w (''url:'' @ code) url None)"

text \<open>
  The end of \<^verbatim>\<open>execute\<close>: when an analytics service was injected and request data came
  with the call, \<^verbatim>\<open>_recordAnalytics\<close> is started and not awaited.
\<close>

definition recordAnalytics :: "bool \<Rightarrow> world \<Rightarrow> string \<Rightarrow> requestData option \<Rightarrow> world" where
  "recordAnalytics analyticsService w code rd =
     (case rd of
        None \<Rightarrow> w
      | Some r \<Rightarrow>
          if analyticsService
          then w\<lparr>pendingClicks := pendingClicks w @
                   [\<lparr>click_shortCode = code, click_ip = ip r,
                     click_userAgent = userAgent r, click_referrer = referrer r\<rparr>]\<rparr>
          else w)"

text \<open>
  \<^verbatim>\<open>execute({ shortCode, requestData = null })\<close>, for a \<^verbatim>\<open>ResolveUrl\<close> built with or
  without an analytics service.  The result is \<^verbatim>\<open>{ originalUrl, urlEntity }\<close>.
\<close>

definition ResolveUrl_execute ::
    "bool \<Rightarrow> world \<Rightarrow> string \<Rightarrow> requestData option
       \<Rightarrow> (error + string \<times> url_doc option) \<times> world" where
  "ResolveUrl_execute analyticsService w code rd =
     (if code = [] then (Inl ShortCodeRequired, w)
      else
        let cached = getFromCache w code
        in if truthy cached
           then (Inr (the cached, None), recordAnalytics analyticsService w code rd)
           else
             (case findByShortCode w code of
                Inl e \<Rightarrow> (Inl e, w)
              | Inr None \<Rightarrow> (Inl UrlNotFound, w)
              | Inr (Some urlEntity) \<Rightarrow>
                  if \<not> isActive urlEntity then (Inl LinkDeactivated, w)
                  else if (case expiresAt urlEntity of
                             None \<Rightarrow> False
                           | Some t \<Rightarrow> now w > t)
                  then (Inl LinkExpired, w)
                  else
                    let w1 = ResolveUrl_cacheUrl w code (originalUrl urlEntity)
                    in (Inr (originalUrl urlEntity, Some urlEntity),
                        recordAnalytics analyticsService w1 code rd)))"

section \<open>CreateShortUrl with its repository calls on record and a racing creator\<close>

text \<open>
  The same method once more, with two additions.  Every call of the URL repository is put
  on record, in the order the method makes it.  And \<open>racing\<close> are the documents that other
  creators persist after this call has selected its code and before it persists its own
  (none in a sequential run): they are in the collection when \<^verbatim>\<open>urlRepository.create\<close>
  runs.
\<close>

datatype store_call =
    CallFindByOriginalUrl string
  | CallCustomAliasExists string
  | CallShortCodeExists string
  | CallCreate url_doc

fun generateLoop_traced ::
    "world \<Rightarrow> nat \<Rightarrow> nat \<Rightarrow> (nat \<Rightarrow> string) list
       \<Rightarrow> ((error + string) \<times> nat \<times> (nat \<Rightarrow> string) list \<times> store_call list) option" where
  "generateLoop_traced w len attempts [] = None"
| "generateLoop_traced w len attempts (d # ds) =
     (let code = d len
      in case shortCodeExists w code of
           Inl e \<Rightarrow> Some (Inl e, len, ds, [CallShortCodeExists code])
         | Inr exists \<Rightarrow>
             let attempts1 = attempts + 1;
                 len1 = (if attempts1 \<ge> 5 then len + 1 else len);
                 attempts2 = (if attempts1 \<ge> 5 then 0 else attempts1)
             in if exists
                then (case generateLoop_traced w len1 attempts2 ds of
                        None \<Rightarrow> None
                      | Some (r, len2, ds2, calls) \<Rightarrow>
                          Some (r, len2, ds2, CallShortCodeExists code # calls))
                else Some (Inr code, len1, ds, [CallShortCodeExists code]))"

definition generateUniqueShortCode_traced ::
    "world \<Rightarrow> ((error + string) \<times> world \<times> store_call list) option" where
  "generateUniqueShortCode_traced w =
     (case generateLoop_traced w (urlLength w) 0 (entropy w) of
        None \<Rightarrow> None
      | Some (r, len, ds, calls) \<Rightarrow> Some (r, w\<lparr>urlLength := len, entropy := ds\<rparr>, calls))"

definition selectShortCode_traced ::
    "world \<Rightarrow> string option \<Rightarrow> ((error + string) \<times> world \<times> store_call list) option" where
  "selectShortCode_traced w alias =
     (if truthy alias then
        (if \<not> isValidCustomAlias (the alias) then Some (Inl InvalidAliasFormat, w, [])
         else case customAliasExists w (the alias) of
                Inl e \<Rightarrow> Some (Inl e, w, [CallCustomAliasExists (the alias)])
              | Inr aliasExists \<Rightarrow>
                  if aliasExists
                  then Some (Inl AliasInUse, w, [CallCustomAliasExists (the alias)])
                  else Some (Inr (the alias), w, [CallCustomAliasExists (the alias)]))
      else generateUniqueShortCode_traced w)"

definition CreateShortUrl_execute_traced ::
    "(string \<Rightarrow> bool) \<Rightarrow> url_doc list \<Rightarrow> world \<Rightarrow> urlData
       \<Rightarrow> ((error + url_doc) \<times> world \<times> store_call list) option" where
  "CreateShortUrl_execute_traced parses racing w input =
     (let normalizedUrl = normalizeUrl (originalUrl input);
          calls0 = [CallFindByOriginalUrl normalizedUrl]
      in case findByOriginalUrl w normalizedUrl of
           Inl e \<Rightarrow> Some (Inl e, w, calls0)
         | Inr (Some existingUrl) \<Rightarrow> Some (Inr existingUrl, w, calls0)
         | Inr None \<Rightarrow>
             (case selectShortCode_traced w (customAlias input) of
                None \<Rightarrow> None
              | Some (Inl e, w1, calls1) \<Rightarrow> Some (Inl e, w1, calls0 @ calls1)
              | Some (Inr code, w1, calls1) \<Rightarrow>
                  (case new_Url parses
                          \<lparr>originalUrl = normalizedUrl, customAlias = customAlias input,
                           userId = userId input, expiresAt = expiresAt input,
                           shortCode = code, createdAt = now w1, isActive = True\<rparr> of
                     Inl e \<Rightarrow> Some (Inl e, w1, calls0 @ calls1)
                   | Inr url \<Rightarrow>
                       (case create (w1\<lparr>urls := urls w1 @ racing\<rparr>) url of
                          (Inl e, w2) \<Rightarrow> Some (Inl e, w2, calls0 @ calls1 @ [CallCreate url])
                        | (Inr createdUrl, w2) \<Rightarrow>
                            Some (Inr createdUrl,
                                  CreateShortUrl_cacheUrl w2 code normalizedUrl,
                                  calls0 @ calls1 @ [CallCreate url])))))"

fun isCallCreate :: "store_call \<Rightarrow> bool" where
  "isCallCreate (CallCreate u) = True"
| "isCallCreate c = False"

fun isShortCodeExistsCall :: "store_call \<Rightarrow> bool" where
  "isShortCodeExistsCall (CallShortCodeExists c) = True"
| "isShortCodeExistsCall c = False"

section \<open>Creations in sequence\<close>

text \<open>One \<^verbatim>\<open>CreateShortUrl\<close> instance serving a list of inputs, whatever each call returns.\<close>

fun createInSequence :: "(string \<Rightarrow> bool) \<Rightarrow> world \<Rightarrow> urlData list \<Rightarrow> world option" where
  "createInSequence parses w [] = Some w"
| "createInSequence parses w (input # inputs) =
     (case CreateShortUrl_execute parses w input of
        None \<Rightarrow> None
      | Some (r, w1) \<Rightarrow> createInSequence parses w1 inputs)"

section \<open>The use cases on an unreachable Redis\<close>

text \<open>
  \<^verbatim>\<open>redisClient.get\<close> and \<^verbatim>\<open>redisClient.set\<close> begin with
  \<^verbatim>\<open>if (!this.isConnected) { await this.connect(); }\<close>, before their \<^verbatim>\<open>try\<close>, and
  \<^verbatim>\<open>connect()\<close> awaits \<^verbatim>\<open>this.client.connect()\<close> of a client created with a host and a port
  only: no reconnect strategy that gives up and no timeout.  While the server cannot be
  reached that promise neither fulfils nor rejects.  The faults of \<open>cache_fault\<close> are the
  failures that settle; this one does not, and an \<^verbatim>\<open>await\<close> on it never resumes, so no
  \<^verbatim>\<open>catch\<close> sees it.  The flag \<open>unreachable\<close> says that Redis cannot be reached during
  the call; with the flag off the definitions below are the ones above.
\<close>

datatype 'a awaited = Settled 'a | NeverSettles

definition cacheRepository_get_awaited ::
    "bool \<Rightarrow> world \<Rightarrow> string \<Rightarrow> (error + string option) awaited" where
  "cacheRepository_get_awaited unreachable w key =
     (if unreachable then NeverSettles else Settled (cacheRepository_get w key))"

definition cacheRepository_set_awaited ::
    "bool \<Rightarrow> world \<Rightarrow> string \<Rightarrow> string \<Rightarrow> nat option \<Rightarrow> ((error + bool) \<times> world) awaited" where
  "cacheRepository_set_awaited unreachable w key v ttl =
     (if unreachable then NeverSettles else Settled (cacheRepository_set w key v ttl))"

definition CreateShortUrl_cacheUrl_awaited :: "bool \<Rightarrow> world \<Rightarrow> string \<Rightarrow> string \<Rightarrow> world awaited" where
  "CreateShortUrl_cacheUrl_awaited unreachable w code longUrl =
     (case cacheRepository_set_awaited unreachable w (''url:'' @ code) longUrl
             (Some (configRedisTtl w)) of
        NeverSettles \<Rightarrow> NeverSettles
      | Settled (r, w1) \<Rightarrow> Settled w1)"

text \<open>
  The result of a call that does not return is \<open>NeverSettles\<close>, with the state it has
  reached by then.
\<close>

definition CreateShortUrl_execute_awaited ::
    "bool \<Rightarrow> (string \<Rightarrow> bool) \<Rightarrow> world \<Rightarrow> urlData
       \<Rightarrow> ((error + url_doc) awaited \<times> world) option" where
  "CreateShortUrl_execute_awaited unreachable parses w input =
     (let normalizedUrl = normalizeUrl (originalUrl input)
      in case findByOriginalUrl w normalizedUrl of
           Inl e \<Rightarrow> Some (Settled (Inl e), w)
         | Inr (Some existingUrl) \<Rightarrow> Some (Settled (Inr existingUrl), w)
         | Inr None \<Rightarrow>
             (case selectShortCode w (customAlias input) of
                None \<Rightarrow> None
              | Some (Inl e, w1) \<Rightarrow> Some (Settled (Inl e), w1)
              | Some (Inr code, w1) \<Rightarrow>
                  (case new_Url parses
                          \<lparr>originalUrl = normalizedUrl, customAlias = customAlias input,
                           userId = userId input, expiresAt = expiresAt input,
                           shortCode = code, createdAt = now w1, isActive = True\<rparr> of
                     Inl e \<Rightarrow> Some (Settled (Inl e), w1)
                   | Inr url \<Rightarrow>
                       (case create w1 url of
                          (Inl e, w2) \<Rightarrow> Some (Settled (Inl e), w2)
                        | (Inr createdUrl, w2) \<Rightarrow>
                            (case CreateShortUrl_cacheUrl_awaited unreachable w2 code
                                    normalizedUrl of
                               NeverSettles \<Rightarrow> Some (NeverSettles, w2)
                             | Settled w3 \<Rightarrow> Some (Settled (Inr createdUrl), w3))))))"

definition getFromCache_awaited :: "bool \<Rightarrow> world \<Rightarrow> string \<Rightarrow> string option awaited" where
  "getFromCache_awaited unreachable w code =
     (case cacheRepository_get_awaited unreachable w (''url:'' @ code) of
        NeverSettles \<Rightarrow> NeverSettles
      | Settled (Inl e) \<Rightarrow> Settled None
      | Settled (Inr v) \<Rightarrow> Settled v)"

definition ResolveUrl_cacheUrl_awaited :: "bool \<Rightarrow> world \<Rightarrow> string \<Rightarrow> string \<Rightarrow> world awaited" where
  "ResolveUrl_cacheUrl_awaited unreachable w code url =
     (case cacheRepository_set_awaited unreachable w (''url:'' @ code) url None of
        NeverSettles \<Rightarrow> NeverSettles
      | Settled (r, w1) \<Rightarrow> Settled w1)"

definition ResolveUrl_execute_awaited ::
    "bool \<Rightarrow> bool \<Rightarrow> world \<Rightarrow> string \<Rightarrow> requestData option
       \<Rightarrow> (error + string \<times> url_doc option) awaited \<times> world" where
  "ResolveUrl_execute_awaited unreachable analyticsService w code rd =
     (if code = [] then (Settled (Inl ShortCodeRequired), w)
      else
        case getFromCache_awaited unreachable w code of
          NeverSettles \<Rightarrow> (NeverSettles, w)
        | Settled cached \<Rightarrow>
            if truthy cached
            then (Settled (Inr (the cached, None)), recordAnalytics analyticsService w code rd)
            else
              (case findByShortCode w code of
                 Inl e \<Rightarrow> (Settled (Inl e), w)
               | Inr None \<Rightarrow> (Settled (Inl UrlNotFound), w)
               | Inr (Some urlEntity) \<Rightarrow>
                   if \<not> isActive urlEntity then (Settled (Inl LinkDeactivated), w)
                   else if (case expiresAt urlEntity of
                              None \<Rightarrow> False
                            | Some t \<Rightarrow> now w > t)
                   then (Settled (Inl LinkExpired), w)
                   else
                     (case ResolveUrl_cacheUrl_awaited unreachable w code
                             (originalUrl urlEntity) of
                        NeverSettles \<Rightarrow> (NeverSettles, w)
                      | Settled w1 \<Rightarrow>
                          (Settled (Inr (originalUrl urlEntity, Some urlEntity)),
                           recordAnalytics analyticsService w1 code rd))))"

section \<open>ShortenerService\<close>

text \<open>
  The facade is one object.  Its constructor assigns four instance fields, in this order:
  \<^verbatim>\<open>urlRepository\<close>, \<^verbatim>\<open>cacheRepository\<close>, \<^verbatim>\<open>createShortUrl\<close> (a \<^verbatim>\<open>CreateShortUrl\<close>) and
  \<^verbatim>\<open>resolveUrl\<close> (a \<^verbatim>\<open>ResolveUrl\<close>, built without an analytics service).  The class body
  declares the methods, which live on the prototype.  A member access \<^verbatim>\<open>obj.name\<close> finds an
  instance field before a prototype method of the same name; calling a value that is not a
  function throws a \<^verbatim>\<open>TypeError\<close>.
\<close>

datatype js_value = JsUndefined | JsObject string | JsFunction string

definition ShortenerService_fields :: "(string \<times> js_value) list" where
  "ShortenerService_fields =
     [(''urlRepository'', JsObject ''MongoUrlRepository''),
      (''cacheRepository'', JsObject ''RedisCacheRepository''),
      (''createShortUrl'', JsObject ''CreateShortUrl''),
      (''resolveUrl'', JsObject ''ResolveUrl'')]"

definition ShortenerService_prototype :: "(string \<times> js_value) list" where
  "ShortenerService_prototype =
     map (\<lambda>m. (m, JsFunction m))
       [''shortenUrl'', ''resolveUrl'', ''getUrl'', ''updateUrl'', ''deleteUrl'',
        ''deactivateUrl'', ''activateUrl'', ''getAllUrls'', ''getUserUrls'',
        ''isAliasAvailable'', ''formatUrlForResponse'']"

definition getMember :: "string \<Rightarrow> js_value" where
  "getMember name =
     (case map_of ShortenerService_fields name of
        Some v \<Rightarrow> v
      | None \<Rightarrow>
          (case map_of ShortenerService_prototype name of
             Some v \<Rightarrow> v
           | None \<Rightarrow> JsUndefined))"

text \<open>
  The two calls of the facade that reach the use cases, \<^verbatim>\<open>shortenerService.shortenUrl(urlData)\<close>
  and \<^verbatim>\<open>shortenerService.resolveUrl(shortCode, requestData)\<close>, and what they return.
\<close>

datatype service_call = CallShortenUrl urlData | CallResolveUrl string "requestData option"

datatype service_value = ShortenedUrl url_doc | OriginalUrl string

fun memberName :: "service_call \<Rightarrow> string" where
  "memberName (CallShortenUrl urlData) = ''shortenUrl''"
| "memberName (CallResolveUrl code rd) = ''resolveUrl''"

text \<open>
  The bodies of the two prototype methods:
  \<^verbatim>\<open>return await this.createShortUrl.execute(urlData)\<close> and
  \<^verbatim>\<open>const result = await this.resolveUrl.execute({ shortCode, requestData });
  return result.originalUrl\<close>.
\<close>

fun methodBody ::
    "(string \<Rightarrow> bool) \<Rightarrow> world \<Rightarrow> service_call \<Rightarrow> ((error + service_value) \<times> world) option" where
  "methodBody parses w (CallShortenUrl urlData) =
     (if getMember ''createShortUrl'' = JsObject ''CreateShortUrl''
      then map_option (\<lambda>(r, w'). (map_sum id ShortenedUrl r, w'))
             (CreateShortUrl_execute parses w urlData)
      else Some (Inl TypeError, w))"
| "methodBody parses w (CallResolveUrl code rd) =
     (if getMember ''resolveUrl'' = JsObject ''ResolveUrl''
      then (case ResolveUrl_execute False w code rd of
              (r, w') \<Rightarrow> Some (map_sum id (\<lambda>result. OriginalUrl (fst result)) r, w'))
      else Some (Inl TypeError, w))"

text \<open>A call \<^verbatim>\<open>shortenerService.name(...)\<close> from outside, as the controllers make it.\<close>

definition shortenerService_call ::
    "(string \<Rightarrow> bool) \<Rightarrow> world \<Rightarrow> service_call \<Rightarrow> ((error + service_value) \<times> world) option" where
  "shortenerService_call parses w c =
     (case getMember (memberName c) of
        JsFunction m \<Rightarrow> methodBody parses w c
      | JsObject cls \<Rightarrow> Some (Inl TypeError, w)
      | JsUndefined \<Rightarrow> Some (Inl TypeError, w))"

section \<open>MongoAnalyticsRepository.getReferrerStats and GetUrlAnalytics\<close>

text \<open>
  The aggregation pipeline of \<^verbatim>\<open>getReferrerStats(shortCode)\<close>:
  \<^verbatim>\<open>$match { shortCode }\<close>, \<^verbatim>\<open>$group { _id: '$referrer', count: { $sum: 1 } }\<close>,
  \<^verbatim>\<open>$project { referrer: { $ifNull: ['$_id', 'Direct/None'] }, count: 1 }\<close>,
  \<^verbatim>\<open>$sort { count: -1 }\<close>; then every row is mapped to
  \<^verbatim>\<open>{ referrer: item.referrer || 'Direct/None', count: item.count }\<close>.
  The store fixes neither the order of the groups nor the order of rows with equal counts;
  here the groups come in the order of \<^const>\<open>remdups\<close> and the sort is stable.
\<close>

definition groupCount :: "'a list \<Rightarrow> ('a \<times> nat) list" where
  "groupCount xs = map (\<lambda>k. (k, count_list xs k)) (remdups xs)"

definition ifNull :: "string option \<Rightarrow> string \<Rightarrow> string" where
  "ifNull v d = (case v of None \<Rightarrow> d | Some s \<Rightarrow> s)"

definition orElse :: "string \<Rightarrow> string \<Rightarrow> string" where
  "orElse s d = (if s = [] then d else s)"

definition getReferrerStats :: "world \<Rightarrow> string \<Rightarrow> error + (string \<times> nat) list" where
  "getReferrerStats w code =
     (if OpGetReferrerStats \<in> storeFaults w then Inl (StoreError StoreUnavailable)
      else
        let matched = filter (\<lambda>c. click_shortCode c = code) (analytics w);
            grouped = groupCount (map click_referrer matched);
            projected = map (\<lambda>(k, n). (ifNull k ''Direct/None'', n)) grouped;
            stats = sort_key (\<lambda>(r, n). - int n) projected
        in Inr (map (\<lambda>(r, n). (orElse r ''Direct/None'', n)) stats))"

text \<open>
  \<^verbatim>\<open>GetUrlAnalytics.execute({ shortCode, view, options })\<close> for the view \<^verbatim>\<open>'referrers'\<close>:
  the existence check, the cache read under
  \<^verbatim>\<open>analytics:${shortCode}:${view}:${JSON.stringify(queryOptions)}\<close>, the case
  \<^verbatim>\<open>'referrers'\<close> of the switch and the cache write with a ttl of 3600 seconds.  The text
  \<^verbatim>\<open>JSON.stringify(queryOptions)\<close> is the argument \<open>optionsHash\<close>.  A cached array is
  returned as it is, also when it is empty (an empty array is truthy).
\<close>

definition createCacheKey :: "string \<Rightarrow> string \<Rightarrow> string \<Rightarrow> string" where
  "createCacheKey code view optionsHash =
     ''analytics:'' @ code @ '':'' @ view @ '':'' @ optionsHash"

definition analytics_getFromCache :: "world \<Rightarrow> string \<Rightarrow> (string \<times> nat) list option" where
  "analytics_getFromCache w key =
     (case cacheGetFault w of
        Some f \<Rightarrow> None
      | None \<Rightarrow>
          (case statsCache w key of
             None \<Rightarrow> None
           | Some (v, expiry) \<Rightarrow> if now w < expiry then Some v else None))"

definition analytics_cacheData :: "world \<Rightarrow> string \<Rightarrow> (string \<times> nat) list \<Rightarrow> world" where
  "analytics_cacheData w key data =
     (case cacheSetFault w of
        Some f \<Rightarrow> w
      | None \<Rightarrow> w\<lparr>statsCache := (statsCache w)(key \<mapsto> (data, now w + 1000 * 3600))\<rparr>)"

definition GetUrlAnalytics_execute_referrers ::
    "world \<Rightarrow> string \<Rightarrow> string \<Rightarrow> (error + (string \<times> nat) list) \<times> world" where
  "GetUrlAnalytics_execute_referrers w code optionsHash =
     (if code = [] then (Inl ShortCodeRequired, w)
      else case shortCodeExists w code of
             Inl e \<Rightarrow> (Inl e, w)
           | Inr urlExists \<Rightarrow>
               if \<not> urlExists then (Inl UrlNotFound, w)
               else
                 let cacheKey = createCacheKey code ''referrers'' optionsHash
                 in case analytics_getFromCache w cacheKey of
                      Some cachedData \<Rightarrow> (Inr cachedData, w)
                    | None \<Rightarrow>
                        (case getReferrerStats w code of
                           Inl e \<Rightarrow> (Inl e, w)
                         | Inr analyticsData \<Rightarrow>
                             (Inr analyticsData, analytics_cacheData w cacheKey analyticsData)))"

text \<open>
  The URL parser of the concrete instances: a stand-in that accepts the strings beginning
  with \<open>http://\<close> or \<open>https://\<close> that contain no space.  It is applied to
  \<open>https://example.com/new\<close>, \<open>https://example.com/other\<close> and
  \<open>https://ftp://example.com\<close>, which the constructor \<^verbatim>\<open>URL\<close> accepts (the last one with
  host \<open>ftp\<close> and an empty port), and to \<open>https://a b\<close>, which it rejects (a space in the
  host).
\<close>

definition sampleParses :: "string \<Rightarrow> bool" where
  "sampleParses u = (hasProtocol u \<and> CHR '' '' \<notin> set u)"

text \<open>Results of \<^verbatim>\<open>nanoid\<close> for the concrete instances: one letter, repeated.\<close>

definition drawA :: "nat \<Rightarrow> string" where
  "drawA n = replicate n CHR ''a''"

definition drawB :: "nat \<Rightarrow> string" where
  "drawB n = replicate n CHR ''b''"

text \<open>What a creation returns and what it leaves in the record store.\<close>

definition resultAndLinks ::
    "((error + url_doc) \<times> world) option \<Rightarrow> ((error + url_doc) \<times> url_doc list) option" where
  "resultAndLinks = map_option (\<lambda>(r, w'). (r, urls w'))"

section \<open>Sample data\<close>

text \<open>A link and a state with nothing cached and nothing failing, for the concrete instances.\<close>

definition sampleLink :: url_doc where
  "sampleLink = \<lparr>originalUrl = ''https://example.com/page'', customAlias = None, userId = None,
     expiresAt = None, shortCode = ''abc1234'', createdAt = 0, isActive = True\<rparr>"

definition sampleWorld :: "url_doc list \<Rightarrow> world" where
  "sampleWorld us = \<lparr>urls = us, storeFaults = {}, cache = Map.empty, cacheGetFault = None,
     cacheSetFault = None, now = 1000, configRedisTtl = 86400, urlLength = 7, entropy = [],
     pendingClicks = [], analytics = [], statsCache = Map.empty\<rparr>"

text \<open>Inputs, links and states of the concrete instances.\<close>

definition promoInput :: urlData where
  "promoInput = \<lparr>originalUrl = ''https://example.com/new'', customAlias = Some ''promo'',
     userId = None, expiresAt = Some 500\<rparr>"

definition promoLink :: url_doc where
  "promoLink = \<lparr>originalUrl = ''https://example.com/new'', customAlias = Some ''promo'',
     userId = None, expiresAt = Some 500, shortCode = ''promo'', createdAt = 1000,
     isActive = True\<rparr>"

definition promoWorld :: world where
  "promoWorld = (sampleWorld [promoLink])
     \<lparr>cache := [''url:promo'' \<mapsto> (''https://example.com/new'', 86401000)]\<rparr>"

definition pageInput :: urlData where
  "pageInput = \<lparr>originalUrl = ''example.com/page/'', customAlias = Some ''other'',
     userId = None, expiresAt = Some 5\<rparr>"

definition promoAgain :: urlData where
  "promoAgain = \<lparr>originalUrl = ''https://example.com/new/'', customAlias = None,
     userId = None, expiresAt = None\<rparr>"

definition clashInput :: urlData where
  "clashInput = \<lparr>originalUrl = ''https://example.com/other'', customAlias = Some ''abc1234'',
     userId = None, expiresAt = None\<rparr>"

definition ftpInput :: urlData where
  "ftpInput = \<lparr>originalUrl = ''ftp://example.com'', customAlias = Some ''files'',
     userId = None, expiresAt = None\<rparr>"

definition ftpLink :: url_doc where
  "ftpLink = \<lparr>originalUrl = ''https://ftp://example.com'', customAlias = Some ''files'',
     userId = None, expiresAt = None, shortCode = ''files'', createdAt = 1000,
     isActive = True\<rparr>"

definition spaceInput :: "string \<Rightarrow> urlData" where
  "spaceInput alias = \<lparr>originalUrl = ''https://a b'', customAlias = Some alias,
     userId = None, expiresAt = None\<rparr>"

text \<open>
  A creation that loses a race: its input has no alias, the first draw is free when the
  generator checks it, and \<open>racingLink\<close>, with that code, is persisted by another creator
  before this one persists.
\<close>

definition raceInput :: urlData where
  "raceInput = \<lparr>originalUrl = ''https://example.com/other'', customAlias = None,
     userId = None, expiresAt = None\<rparr>"

definition raceWorld :: world where
  "raceWorld = (sampleWorld [])\<lparr>entropy := [drawA, drawB]\<rparr>"

definition racingLink :: url_doc where
  "racingLink = \<lparr>originalUrl = ''https://example.org/theirs'', customAlias = None,
     userId = None, expiresAt = None, shortCode = ''aaaaaaa'', createdAt = 1000,
     isActive = True\<rparr>"

definition collisionWorld :: world where
  "collisionWorld = (sampleWorld [sampleLink\<lparr>shortCode := ''aaaaaaa''\<rparr>])
     \<lparr>entropy := [drawA, drawA, drawA, drawA, drawA, drawB, drawB]\<rparr>"

definition directClicks :: "click list" where
  "directClicks =
     [\<lparr>click_shortCode = ''abc1234'', click_ip = Some ''203.0.113.7'', click_userAgent = None,
       click_referrer = None\<rparr>,
      \<lparr>click_shortCode = ''abc1234'', click_ip = Some ''203.0.113.8'', click_userAgent = None,
       click_referrer = Some ''''\<rparr>,
      \<lparr>click_shortCode = ''abc1234'', click_ip = Some ''203.0.113.9'', click_userAgent = None,
       click_referrer = None\<rparr>]"

section \<open>Facts about the string helpers\<close>

lemma endsWith_slash_iff: "endsWith s ''/'' \<longleftrightarrow> s \<noteq> [] \<and> last s = CHR ''/''"
proof (cases s rule: rev_cases)
  case Nil
  then show ?thesis by (simp add: endsWith_def)
next
  case (snoc ys y)
  then show ?thesis by (simp add: endsWith_def)
qed

lemma slice_0_minus1_butlast: "slice_0_minus1 s = butlast s"
  by (simp add: slice_0_minus1_def butlast_conv_take)

lemma hasProtocol_ensureProtocol: "hasProtocol (ensureProtocol url)"
  by (simp add: hasProtocol_def ensureProtocol_def startsWith_def)

lemma ensureProtocol_id: "hasProtocol url \<Longrightarrow> ensureProtocol url = url"
  by (auto simp: hasProtocol_def ensureProtocol_def)

lemma ensureProtocol_length: "\<not> hasProtocol url \<Longrightarrow> length (ensureProtocol url) = length url + 8"
  by (simp add: hasProtocol_def ensureProtocol_def)

lemma ensureProtocol_not_Nil: "ensureProtocol url \<noteq> []"
  by (auto simp: ensureProtocol_def startsWith_def)

lemma normalizeUrl_length_le: "length (normalizeUrl url) \<le> length (ensureProtocol url)"
  by (simp add: normalizeUrl_def Let_def slice_0_minus1_def)

lemma normalizeUrl_fixed_iff:
  "normalizeUrl y = y \<longleftrightarrow> hasProtocol y \<and> \<not> endsWith y ''/''"
proof (cases "hasProtocol y")
  case True
  then have e: "ensureProtocol y = y" by (rule ensureProtocol_id)
  show ?thesis
  proof (cases "endsWith y ''/''")
    case True
    then have "y \<noteq> []" by (simp add: endsWith_slash_iff)
    have "butlast y \<noteq> y"
    proof
      assume a: "butlast y = y"
      have "length (butlast y) = length y - 1" by (rule length_butlast)
      with a have "length y = length y - 1" by simp
      moreover have "0 < length y" using \<open>y \<noteq> []\<close> by simp
      ultimately show False by arith
    qed
    with True e \<open>hasProtocol y\<close> show ?thesis
      by (simp add: normalizeUrl_def slice_0_minus1_butlast)
  next
    case False
    with e \<open>hasProtocol y\<close> show ?thesis by (simp add: normalizeUrl_def)
  qed
next
  case False
  then have len: "length (ensureProtocol y) = length y + 8" by (rule ensureProtocol_length)
  have "length y + 7 \<le> length (normalizeUrl y)"
    using len by (simp add: normalizeUrl_def Let_def slice_0_minus1_def)
  have "normalizeUrl y \<noteq> y"
  proof
    assume "normalizeUrl y = y"
    with \<open>length y + 7 \<le> length (normalizeUrl y)\<close> show False by simp
  qed
  with False show ?thesis by simp
qed

section \<open>Normalisation: one trailing slash, and when it is idempotent\<close>

text \<open>
  C6 (as the code has it).  Normalising a string that ends in \<open>/\<close> removes exactly one
  code unit, the last one, from the string with its protocol ensured; and normalising twice
  gives the same as normalising once exactly when the first result still begins with
  \<open>http://\<close> or \<open>https://\<close> and no longer ends in \<open>/\<close>.
\<close>

theorem normalizeUrl_strips_one_and_idempotent_iff:
  "(endsWith x ''/'' \<longrightarrow>
      normalizeUrl x = butlast (ensureProtocol x) \<and>
      normalizeUrl x @ ''/'' = ensureProtocol x) \<and>
   (normalizeUrl (normalizeUrl x) = normalizeUrl x \<longleftrightarrow>
      hasProtocol (normalizeUrl x) \<and> \<not> endsWith (normalizeUrl x) ''/'')"
proof -
  have strip: "normalizeUrl x = butlast (ensureProtocol x) \<and>
      normalizeUrl x @ ''/'' = ensureProtocol x" if h: "endsWith x ''/''"
  proof -
    from h have x: "x \<noteq> []" "last x = CHR ''/''" by (simp_all add: endsWith_slash_iff)
    have "last (ensureProtocol x) = CHR ''/''"
      using x by (simp add: ensureProtocol_def)
    with ensureProtocol_not_Nil [of x] have e: "endsWith (ensureProtocol x) ''/''"
      by (simp add: endsWith_slash_iff)
    then have n: "normalizeUrl x = butlast (ensureProtocol x)"
      by (simp add: normalizeUrl_def slice_0_minus1_butlast)
    have "butlast (ensureProtocol x) @ [last (ensureProtocol x)] = ensureProtocol x"
      using ensureProtocol_not_Nil [of x] by simp
    with n \<open>last (ensureProtocol x) = CHR ''/''\<close> show ?thesis by simp
  qed
  show ?thesis using strip normalizeUrl_fixed_iff [of "normalizeUrl x"] by blast
qed

theorem normalizeUrl_strips_one_and_idempotent_iff_witness:
  "endsWith ''example.com/a/'' ''/'' \<and>
   normalizeUrl ''example.com/a/'' = butlast (ensureProtocol ''example.com/a/'') \<and>
   hasProtocol (normalizeUrl ''example.com/a/'') \<and>
   \<not> endsWith (normalizeUrl ''example.com/a/'') ''/'' \<and>
   normalizeUrl (normalizeUrl ''example.com/a/'') = normalizeUrl ''example.com/a/''"
proof -
  have e: "endsWith ''example.com/a/'' ''/''" by (simp add: endsWith_def)
  have f: "hasProtocol (normalizeUrl ''example.com/a/'') \<and>
      \<not> endsWith (normalizeUrl ''example.com/a/'') ''/''"
    by (simp add: normalizeUrl_def ensureProtocol_def hasProtocol_def startsWith_def
        endsWith_def slice_0_minus1_def)
  show ?thesis
    using normalizeUrl_strips_one_and_idempotent_iff [of "''example.com/a/''"] e f by blast
qed

text \<open>
  C6 (as stated) fails: \<open>https://a.com//\<close> ends in two slashes, one is removed by the
  first normalisation and the other by the second.
\<close>

theorem normalizeUrl_not_idempotent:
  "normalizeUrl ''https://a.com//'' = ''https://a.com/'' \<and>
   normalizeUrl (normalizeUrl ''https://a.com//'') = ''https://a.com'' \<and>
   normalizeUrl (normalizeUrl ''https://a.com//'') \<noteq> normalizeUrl ''https://a.com//''"
  by (simp add: normalizeUrl_def ensureProtocol_def startsWith_def endsWith_def
      slice_0_minus1_def)

section \<open>Facts about the sample data, the cache and the analytics hand-off\<close>

lemmas sample_defs = sampleWorld_def sampleLink_def

lemma trim_abc1234: "trim ''abc1234'' = ''abc1234''"
  by (simp add: trim_def isWhiteSpace_def)

lemma sample_miss: "\<not> truthy (getFromCache (sampleWorld us) ''abc1234'')"
  by (simp add: truthy_def getFromCache_def cacheRepository_get_def sampleWorld_def)

lemma cache_recordAnalytics [simp]: "cache (recordAnalytics a w code rd) = cache w"
  by (simp add: recordAnalytics_def split: option.splits)

lemma urls_recordAnalytics [simp]: "urls (recordAnalytics a w code rd) = urls w"
  by (simp add: recordAnalytics_def split: option.splits)

lemma recordAnalytics_None [simp]: "recordAnalytics a w code None = w"
  by (simp add: recordAnalytics_def)

lemma recordAnalytics_off [simp]: "recordAnalytics False w code rd = w"
  by (simp add: recordAnalytics_def split: option.splits)

lemma cache_ResolveUrl_cacheUrl:
  "cacheSetFault w = None \<Longrightarrow>
   cache (ResolveUrl_cacheUrl w code u) =
     (cache w)(''url:'' @ code \<mapsto> (u, now w + 1000 * int (defaultTtl w)))"
  by (simp add: ResolveUrl_cacheUrl_def cacheRepository_set_def)

lemma ResolveUrl_cacheUrl_fault:
  "cacheSetFault w = Some f \<Longrightarrow> ResolveUrl_cacheUrl w code u = w"
  by (cases f) (simp_all add: ResolveUrl_cacheUrl_def cacheRepository_set_def)

lemma urls_ResolveUrl_cacheUrl [simp]: "urls (ResolveUrl_cacheUrl w code u) = urls w"
  by (simp add: ResolveUrl_cacheUrl_def cacheRepository_set_def Let_def
      split: option.splits cache_fault.splits)

section \<open>Resolution on a cache miss\<close>

text \<open>
  C1 (as the code has it).  A resolution of a non-empty code whose cache read gives no value
  (nothing, or the empty string) reads the Link from the record store.  When that read
  returns: with no Link it fails with \<open>UrlNotFound\<close>; with an inactive Link it fails with
  \<open>LinkDeactivated\<close>; with an active Link whose \<open>expiresAt\<close> is strictly before now it
  fails with \<open>LinkExpired\<close>; otherwise (no \<open>expiresAt\<close>, or now is not after it) it
  returns the Link's \<open>originalUrl\<close> after the cache write under \<open>url:\<close> followed by the
  code, which stores the URL when the cache accepts the write.
\<close>

theorem ResolveUrl_cache_miss:
  assumes "code \<noteq> []" and "\<not> truthy (getFromCache w code)"
    and "findByShortCode w code = Inr found"
  shows "(found = None \<longrightarrow> ResolveUrl_execute a w code rd = (Inl UrlNotFound, w)) \<and>
    (\<forall>l. found = Some l \<and> \<not> isActive l \<longrightarrow>
        ResolveUrl_execute a w code rd = (Inl LinkDeactivated, w)) \<and>
    (\<forall>l t. found = Some l \<and> isActive l \<and> expiresAt l = Some t \<and> t < now w \<longrightarrow>
        ResolveUrl_execute a w code rd = (Inl LinkExpired, w)) \<and>
    (\<forall>l. found = Some l \<and> isActive l \<and> (\<forall>t. expiresAt l = Some t \<longrightarrow> now w \<le> t) \<longrightarrow>
        ResolveUrl_execute a w code rd =
          (Inr (originalUrl l, Some l),
           recordAnalytics a (ResolveUrl_cacheUrl w code (originalUrl l)) code rd) \<and>
        (cacheSetFault w = None \<longrightarrow>
           cache (snd (ResolveUrl_execute a w code rd)) (''url:'' @ code) =
             Some (originalUrl l, now w + 1000 * int (defaultTtl w))))"
proof (cases found)
  case None
  with assms show ?thesis by (simp add: ResolveUrl_execute_def)
next
  case (Some l)
  show ?thesis
  proof (cases "isActive l")
    case False
    with Some assms show ?thesis by (simp add: ResolveUrl_execute_def)
  next
    case True
    show ?thesis
    proof (cases "expiresAt l")
      case None
      with True Some assms show ?thesis
        by (simp add: ResolveUrl_execute_def cache_ResolveUrl_cacheUrl)
    next
      case (Some t)
      with True \<open>found = Some l\<close> assms show ?thesis
        by (cases "t < now w") (simp_all add: ResolveUrl_execute_def cache_ResolveUrl_cacheUrl)
    qed
  qed
qed

theorem ResolveUrl_cache_miss_witness:
  "ResolveUrl_execute False (sampleWorld []) ''abc1234'' None = (Inl UrlNotFound, sampleWorld []) \<and>
   ResolveUrl_execute False (sampleWorld [sampleLink\<lparr>isActive := False\<rparr>]) ''abc1234'' None
     = (Inl LinkDeactivated, sampleWorld [sampleLink\<lparr>isActive := False\<rparr>]) \<and>
   ResolveUrl_execute False (sampleWorld [sampleLink\<lparr>expiresAt := Some 999\<rparr>]) ''abc1234'' None
     = (Inl LinkExpired, sampleWorld [sampleLink\<lparr>expiresAt := Some 999\<rparr>]) \<and>
   fst (ResolveUrl_execute False (sampleWorld [sampleLink]) ''abc1234'' None)
     = Inr (''https://example.com/page'', Some sampleLink) \<and>
   cache (snd (ResolveUrl_execute False (sampleWorld [sampleLink]) ''abc1234'' None)) ''url:abc1234''
     = Some (''https://example.com/page'', 86401000)"
proof -
  have m: "\<And>us. \<not> truthy (getFromCache (sampleWorld us) ''abc1234'')" by (rule sample_miss)
  have c: "''abc1234'' \<noteq> []" by simp
  have f0: "findByShortCode (sampleWorld []) ''abc1234'' = Inr None"
    by (simp add: findByShortCode_def sampleWorld_def)
  have f1: "findByShortCode (sampleWorld [sampleLink\<lparr>isActive := False\<rparr>]) ''abc1234''
      = Inr (Some (sampleLink\<lparr>isActive := False\<rparr>))"
    by (simp add: findByShortCode_def sample_defs trim_abc1234)
  have f2: "findByShortCode (sampleWorld [sampleLink\<lparr>expiresAt := Some 999\<rparr>]) ''abc1234''
      = Inr (Some (sampleLink\<lparr>expiresAt := Some 999\<rparr>))"
    by (simp add: findByShortCode_def sample_defs trim_abc1234)
  have f3: "findByShortCode (sampleWorld [sampleLink]) ''abc1234'' = Inr (Some sampleLink)"
    by (simp add: findByShortCode_def sample_defs trim_abc1234)
  note t0 = ResolveUrl_cache_miss [OF c m f0, of False None]
  note t1 = ResolveUrl_cache_miss [OF c m f1, of False None]
  note t2 = ResolveUrl_cache_miss [OF c m f2, of False None]
  note t3 = ResolveUrl_cache_miss [OF c m f3, of False None]
  have a: "ResolveUrl_execute False (sampleWorld []) ''abc1234'' None = (Inl UrlNotFound, sampleWorld [])"
    using t0 by simp
  have b: "ResolveUrl_execute False (sampleWorld [sampleLink\<lparr>isActive := False\<rparr>]) ''abc1234'' None
     = (Inl LinkDeactivated, sampleWorld [sampleLink\<lparr>isActive := False\<rparr>])"
    using t1 by (simp add: sampleLink_def)
  have d: "ResolveUrl_execute False (sampleWorld [sampleLink\<lparr>expiresAt := Some 999\<rparr>]) ''abc1234'' None
     = (Inl LinkExpired, sampleWorld [sampleLink\<lparr>expiresAt := Some 999\<rparr>])"
    using t2 by (simp add: sample_defs)
  have e: "fst (ResolveUrl_execute False (sampleWorld [sampleLink]) ''abc1234'' None)
     = Inr (''https://example.com/page'', Some sampleLink) \<and>
   cache (snd (ResolveUrl_execute False (sampleWorld [sampleLink]) ''abc1234'' None)) ''url:abc1234''
     = Some (''https://example.com/page'', 86401000)"
  proof -
    have "isActive sampleLink" "expiresAt sampleLink = None"
      "originalUrl sampleLink = ''https://example.com/page''"
      by (simp_all add: sampleLink_def)
    moreover have "cacheSetFault (sampleWorld [sampleLink]) = None"
      "now (sampleWorld [sampleLink]) = 1000" "defaultTtl (sampleWorld [sampleLink]) = 86400"
      by (simp_all add: sampleWorld_def defaultTtl_def)
    ultimately show ?thesis using t3 by auto
  qed
  from a b d e show ?thesis by simp
qed

text \<open>
  C1 (as stated) fails at the instant of expiry: with \<open>expiresAt\<close> equal to now the
  comparison \<^verbatim>\<open>new Date() > new Date(urlEntity.expiresAt)\<close> is false and the Link resolves.
\<close>

theorem ResolveUrl_expiry_instant_resolves:
  "expiresAt (sampleLink\<lparr>expiresAt := Some 1000\<rparr>) = Some (now (sampleWorld [])) \<and>
   getFromCache (sampleWorld [sampleLink\<lparr>expiresAt := Some 1000\<rparr>]) ''abc1234'' = None \<and>
   fst (ResolveUrl_execute False (sampleWorld [sampleLink\<lparr>expiresAt := Some 1000\<rparr>]) ''abc1234'' None)
     = Inr (''https://example.com/page'', Some (sampleLink\<lparr>expiresAt := Some 1000\<rparr>))"
  by (simp add: ResolveUrl_execute_def sample_defs getFromCache_def cacheRepository_get_def
      truthy_def findByShortCode_def trim_abc1234)

section \<open>Facts about lists\<close>

lemma find_append_None: "find P xs = None \<Longrightarrow> find P (xs @ ys) = find P ys"
  by (induction xs) (auto split: if_splits)

lemma find_None_filter: "find P xs = None \<Longrightarrow> filter P xs = []"
  by (induction xs) (auto split: if_splits)

lemma find_Some_filter: "find P xs = Some x \<Longrightarrow> filter P xs \<noteq> []"
  by (induction xs) (auto split: if_splits)

section \<open>Facts about the repository, the entity and the generator\<close>

lemma normalizeUrl_not_Nil: "normalizeUrl url \<noteq> []"
proof -
  have "8 \<le> length (ensureProtocol url) \<or> 7 \<le> length (ensureProtocol url)"
    by (auto simp: ensureProtocol_def startsWith_def split: if_splits)
  then have "6 \<le> length (normalizeUrl url)"
    by (auto simp: normalizeUrl_def Let_def slice_0_minus1_def)
  then show ?thesis by auto
qed

lemma new_Url_Inr: "new_Url parses u = Inr u' \<Longrightarrow> u' = u \<and> parses (originalUrl u) \<and> shortCode u \<noteq> []"
  by (auto simp: new_Url_def split: if_splits)

lemma create_Inr:
  assumes "create w u = (Inr l, wc)"
  shows "l = castUrlDoc u" "wc = w\<lparr>urls := urls w @ [l]\<rparr>"
    "\<not> list_ex (\<lambda>d. shortCode d = shortCode l) (urls w)"
  using assms by (auto simp: create_def Let_def split: if_splits)

lemma create_Inl: "create w u = (Inl e, wc) \<Longrightarrow> wc = w"
  by (auto simp: create_def Let_def split: if_splits)

lemma create_fields:
  assumes "create w u = (r, w2)"
  shows "storeFaults w2 = storeFaults w" "cache w2 = cache w"
    "cacheGetFault w2 = cacheGetFault w" "cacheSetFault w2 = cacheSetFault w" "now w2 = now w"
    "configRedisTtl w2 = configRedisTtl w" "pendingClicks w2 = pendingClicks w"
    "urlLength w2 = urlLength w" "entropy w2 = entropy w"
  using assms by (auto simp: create_def Let_def split: if_splits)

lemma create_expiresAt:
  assumes "create ws u = (Inr l, wc)"
  shows "create ws (u\<lparr>expiresAt := e\<rparr>)
     = (Inr (l\<lparr>expiresAt := e\<rparr>), ws\<lparr>urls := urls ws @ [l\<lparr>expiresAt := e\<rparr>]\<rparr>)"
  using assms by (auto simp: create_def Let_def castUrlDoc_def split: if_splits)

lemma generateLoop_mono:
  "generateLoop w len att ds = Some (r, len', ds') \<Longrightarrow> len \<le> len'"
proof (induction ds arbitrary: len att)
  case Nil
  then show ?case by simp
next
  case (Cons d ds)
  show ?case
  proof (cases "shortCodeExists w (d len)")
    case (Inl e)
    with Cons.prems show ?thesis by simp
  next
    case (Inr ex)
    show ?thesis
    proof (cases ex)
      case True
      with Inr Cons.prems Cons.IH [of "Suc len" 0] Cons.IH [of len "Suc att"] show ?thesis
        by (auto simp: Let_def split: if_splits)
    next
      case False
      with Inr Cons.prems show ?thesis by (auto simp: Let_def split: if_splits)
    qed
  qed
qed

lemma generateLoop_error:
  "generateLoop w len att ds = Some (Inl e, len', ds') \<Longrightarrow> e = StoreError StoreUnavailable"
proof (induction ds arbitrary: len att)
  case Nil
  then show ?case by simp
next
  case (Cons d ds)
  show ?case
  proof (cases "shortCodeExists w (d len)")
    case (Inl e')
    with Cons.prems show ?thesis by (auto simp: shortCodeExists_def split: if_splits)
  next
    case (Inr ex)
    with Cons.prems Cons.IH [of "Suc len" 0] Cons.IH [of len "Suc att"] show ?thesis
      by (auto simp: Let_def split: if_splits)
  qed
qed

lemma generateLoop_five_collisions:
  assumes "list_all (\<lambda>d. shortCodeExists w (d len) = Inr True) [d1, d2, d3, d4, d5]"
  shows "generateLoop w len 0 (d1 # d2 # d3 # d4 # d5 # ds) = generateLoop w (len + 1) 0 ds"
  using assms by simp

lemma generateUniqueShortCode_fields:
  assumes "generateUniqueShortCode w = Some (r, w1)"
  shows "urls w1 = urls w" "storeFaults w1 = storeFaults w" "cache w1 = cache w"
    "cacheGetFault w1 = cacheGetFault w" "cacheSetFault w1 = cacheSetFault w" "now w1 = now w"
    "configRedisTtl w1 = configRedisTtl w" "pendingClicks w1 = pendingClicks w"
    "urlLength w \<le> urlLength w1"
  using assms
  by (auto simp: generateUniqueShortCode_def split: option.splits dest: generateLoop_mono)

lemma selectShortCode_fields:
  assumes "selectShortCode w alias = Some (r, w1)"
  shows "urls w1 = urls w" "storeFaults w1 = storeFaults w" "cache w1 = cache w"
    "cacheGetFault w1 = cacheGetFault w" "cacheSetFault w1 = cacheSetFault w" "now w1 = now w"
    "configRedisTtl w1 = configRedisTtl w" "pendingClicks w1 = pendingClicks w"
    "urlLength w \<le> urlLength w1"
  using assms generateUniqueShortCode_fields [of w r w1]
  by (auto simp: selectShortCode_def split: if_splits sum.splits)

lemma selectShortCode_error:
  "selectShortCode w alias = Some (Inl e, w1) \<Longrightarrow>
   e = InvalidAliasFormat \<or> e = AliasInUse \<or> e = StoreError StoreUnavailable"
  by (auto simp: selectShortCode_def generateUniqueShortCode_def customAliasExists_def
      split: if_splits sum.splits option.splits dest: generateLoop_error)

section \<open>Facts about CreateShortUrl.execute\<close>

lemma urlLength_CreateShortUrl_cacheUrl [simp]:
  "urlLength (CreateShortUrl_cacheUrl w c u) = urlLength w"
  by (simp add: CreateShortUrl_cacheUrl_def cacheRepository_set_def Let_def
      split: option.splits cache_fault.splits)

lemma CreateShortUrl_cacheUrl_fields [simp]:
  "urls (CreateShortUrl_cacheUrl w c u) = urls w"
  "storeFaults (CreateShortUrl_cacheUrl w c u) = storeFaults w"
  "entropy (CreateShortUrl_cacheUrl w c u) = entropy w"
  "now (CreateShortUrl_cacheUrl w c u) = now w"
  by (simp_all add: CreateShortUrl_cacheUrl_def cacheRepository_set_def Let_def
      split: option.splits cache_fault.splits)

lemma CreateShortUrl_cacheUrl_urls_update:
  "CreateShortUrl_cacheUrl (w\<lparr>urls := us\<rparr>) c u = (CreateShortUrl_cacheUrl w c u)\<lparr>urls := us\<rparr>"
  by (simp add: CreateShortUrl_cacheUrl_def cacheRepository_set_def Let_def defaultTtl_def
      split: option.splits cache_fault.splits)

lemma CreateShortUrl_execute_urlLength_mono:
  assumes "CreateShortUrl_execute parses w inp = Some (r, w2)"
  shows "urlLength w \<le> urlLength w2"
proof (cases "findByOriginalUrl w (normalizeUrl (originalUrl inp))")
  case (Inl e)
  with assms show ?thesis by (simp add: CreateShortUrl_execute_def)
next
  case (Inr found)
  show ?thesis
  proof (cases found)
    case (Some l)
    with Inr assms show ?thesis by (simp add: CreateShortUrl_execute_def)
  next
    case None
    show ?thesis
    proof (cases "selectShortCode w (customAlias inp)")
      case None
      with Inr \<open>found = None\<close> assms show ?thesis by (simp add: CreateShortUrl_execute_def)
    next
      case (Some p)
      obtain rc w1 where p: "p = (rc, w1)" by (cases p)
      from Some p have m: "urlLength w \<le> urlLength w1" by (auto dest: selectShortCode_fields(9))
      from assms Inr \<open>found = None\<close> Some p have "urlLength w2 = urlLength w1"
        by (auto simp: CreateShortUrl_execute_def Let_def split: sum.splits prod.splits
            dest: create_fields(8))
      with m show ?thesis by simp
    qed
  qed
qed

lemma CreateShortUrl_execute_Inr_cases:
  assumes "CreateShortUrl_execute parses w inp = Some (Inr l, w1)"
  obtains (existing) "findByOriginalUrl w (normalizeUrl (originalUrl inp)) = Inr (Some l)" "w1 = w"
  | (created) code ws wc where
      "findByOriginalUrl w (normalizeUrl (originalUrl inp)) = Inr None"
      "selectShortCode w (customAlias inp) = Some (Inr code, ws)"
      "code \<noteq> []" "parses (normalizeUrl (originalUrl inp))"
      "create ws \<lparr>originalUrl = normalizeUrl (originalUrl inp), customAlias = customAlias inp,
             userId = userId inp, expiresAt = expiresAt inp,
             shortCode = code, createdAt = now ws, isActive = True\<rparr> = (Inr l, wc)"
      "w1 = CreateShortUrl_cacheUrl wc code (normalizeUrl (originalUrl inp))"
  using assms
  by (auto simp: CreateShortUrl_execute_def Let_def
      split: sum.splits option.splits prod.splits dest!: new_Url_Inr)

lemma CreateShortUrl_execute_existing:
  "findByOriginalUrl w (normalizeUrl (originalUrl inp)) = Inr (Some l) \<Longrightarrow>
   CreateShortUrl_execute parses w inp = Some (Inr l, w)"
  by (simp add: CreateShortUrl_execute_def)

lemma CreateShortUrl_execute_twice:
  assumes first: "CreateShortUrl_execute parses w inp = Some (Inr l1, w1)"
    and same: "normalizeUrl (originalUrl inp2) = normalizeUrl (originalUrl inp)"
    and inv: "length (filter (\<lambda>d. originalUrl d = trim (normalizeUrl (originalUrl inp))) (urls w)) \<le> 1"
  shows "CreateShortUrl_execute parses2 w1 inp2 = Some (Inr l1, w1) \<and>
      length (filter (\<lambda>d. originalUrl d = trim (normalizeUrl (originalUrl inp))) (urls w1)) = 1"
proof -
  let ?n = "normalizeUrl (originalUrl inp)"
  let ?P = "\<lambda>d. originalUrl d = trim ?n"
  from first show ?thesis
  proof (cases rule: CreateShortUrl_execute_Inr_cases)
    case existing
    then have f: "find ?P (urls w) = Some l1"
      by (auto simp: findByOriginalUrl_def split: if_splits)
    then have "filter ?P (urls w) \<noteq> []" by (rule find_Some_filter)
    then have "0 < length (filter ?P (urls w))" by simp
    with inv have "length (filter ?P (urls w)) = 1" by arith
    moreover have "CreateShortUrl_execute parses2 w1 inp2 = Some (Inr l1, w1)"
      using existing same CreateShortUrl_execute_existing [of w1 inp2 l1 parses2] by simp
    ultimately show ?thesis using existing by simp
  next
    case (created code ws wc)
    from created(1) have nf: "OpFindByOriginalUrl \<notin> storeFaults w" and f: "find ?P (urls w) = None"
      by (auto simp: findByOriginalUrl_def split: if_splits)
    from created(2) have ws: "urls ws = urls w" "storeFaults ws = storeFaults w"
      by (auto dest: selectShortCode_fields)
    from create_Inr [OF created(5)] have l1: "originalUrl l1 = trim ?n"
      and wc: "wc = ws\<lparr>urls := urls ws @ [l1]\<rparr>" by (simp_all add: castUrlDoc_def)
    note ol = l1
    have u1: "urls w1 = urls w @ [l1]" and s1: "storeFaults w1 = storeFaults w"
      by (simp_all add: created(6) wc ws)
    have "find ?P (urls w1) = Some l1"
      by (simp add: u1 find_append_None [OF f] ol)
    then have "findByOriginalUrl w1 (normalizeUrl (originalUrl inp2)) = Inr (Some l1)"
      using nf by (simp add: findByOriginalUrl_def s1 same)
    then have "CreateShortUrl_execute parses2 w1 inp2 = Some (Inr l1, w1)"
      by (rule CreateShortUrl_execute_existing)
    moreover have "length (filter ?P (urls w1)) = 1"
      by (simp add: u1 find_None_filter [OF f] ol)
    ultimately show ?thesis by simp
  qed
qed

lemma CreateShortUrl_execute_find_error:
  "findByOriginalUrl w (normalizeUrl (originalUrl inp)) = Inl e \<Longrightarrow>
   CreateShortUrl_execute parses w inp = Some (Inl e, w)"
  by (simp add: CreateShortUrl_execute_def)

lemma CreateShortUrl_execute_alias_error:
  "findByOriginalUrl w (normalizeUrl (originalUrl inp)) = Inr None \<Longrightarrow>
   customAlias inp = Some alias \<Longrightarrow> isValidCustomAlias alias \<Longrightarrow>
   customAliasExists w alias = Inl e \<Longrightarrow>
   CreateShortUrl_execute parses w inp = Some (Inl e, w)"
  by (auto simp: CreateShortUrl_execute_def selectShortCode_def truthy_def isValidCustomAlias_def)

lemma CreateShortUrl_execute_exists_error:
  "findByOriginalUrl w (normalizeUrl (originalUrl inp)) = Inr None \<Longrightarrow>
   \<not> truthy (customAlias inp) \<Longrightarrow> entropy w = d # ds \<Longrightarrow>
   shortCodeExists w (d (urlLength w)) = Inl e \<Longrightarrow>
   CreateShortUrl_execute parses w inp = Some (Inl e, w\<lparr>entropy := ds\<rparr>)"
  by (simp add: CreateShortUrl_execute_def selectShortCode_def generateUniqueShortCode_def)

lemma CreateShortUrl_execute_create_error:
  assumes "findByOriginalUrl w (normalizeUrl (originalUrl inp)) = Inr None"
    and "selectShortCode w (customAlias inp) = Some (Inr code, ws)"
    and "new_Url parses
           \<lparr>originalUrl = normalizeUrl (originalUrl inp), customAlias = customAlias inp,
            userId = userId inp, expiresAt = expiresAt inp,
            shortCode = code, createdAt = now ws, isActive = True\<rparr> = Inr u"
    and "create ws u = (Inl e, wc)"
  shows "CreateShortUrl_execute parses w inp = Some (Inl e, ws)"
  using assms create_Inl [OF assms(4)] by (simp add: CreateShortUrl_execute_def)

section \<open>Facts about cache failures\<close>

lemma generateLoop_cacheSetFault [simp]:
  "generateLoop (w\<lparr>cacheSetFault := x\<rparr>) len att ds = generateLoop w len att ds"
  by (induction ds arbitrary: len att) (simp_all add: shortCodeExists_def Let_def)

lemma selectShortCode_cacheSetFault:
  "selectShortCode (w\<lparr>cacheSetFault := x\<rparr>) alias
     = map_option (\<lambda>(r, w'). (r, w'\<lparr>cacheSetFault := x\<rparr>)) (selectShortCode w alias)"
  by (simp add: selectShortCode_def generateUniqueShortCode_def customAliasExists_def
      split: option.splits sum.splits)

lemma create_cacheSetFault:
  "create (w\<lparr>cacheSetFault := x\<rparr>) u
     = (case create w u of (r, w') \<Rightarrow> (r, w'\<lparr>cacheSetFault := x\<rparr>))"
  by (simp add: create_def Let_def)

lemma urls_cacheRepository_set [simp]: "urls (snd (cacheRepository_set w k v t)) = urls w"
  by (simp add: cacheRepository_set_def Let_def split: option.splits cache_fault.splits)

lemma CreateShortUrl_execute_cacheSetFault:
  "resultAndLinks (CreateShortUrl_execute parses (w\<lparr>cacheSetFault := x\<rparr>) inp)
     = resultAndLinks (CreateShortUrl_execute parses w inp)"
  by (simp add: CreateShortUrl_execute_def Let_def resultAndLinks_def findByOriginalUrl_def
      selectShortCode_cacheSetFault create_cacheSetFault
      split: option.splits sum.splits prod.splits)

lemma CreateShortUrl_execute_no_CacheError:
  "CreateShortUrl_execute parses w inp \<noteq> Some (Inl CacheError, w1)"
proof
  assume a: "CreateShortUrl_execute parses w inp = Some (Inl CacheError, w1)"
  show False
  proof (cases "findByOriginalUrl w (normalizeUrl (originalUrl inp))")
    case (Inl e)
    with a show ?thesis
      by (auto simp: CreateShortUrl_execute_def findByOriginalUrl_def split: if_splits)
  next
    case (Inr found)
    show ?thesis
    proof (cases found)
      case (Some l)
      with Inr a show ?thesis by (simp add: CreateShortUrl_execute_def)
    next
      case None
      with Inr a show ?thesis
        by (auto simp: CreateShortUrl_execute_def new_Url_def create_def Let_def
            split: option.splits sum.splits prod.splits if_splits
            dest: selectShortCode_error)
    qed
  qed
qed

lemma getFromCache_fault: "cacheGetFault w = Some f \<Longrightarrow> getFromCache w code = None"
  by (cases f) (simp_all add: getFromCache_def cacheRepository_get_def)

lemma getFromCache_empty:
  "getFromCache (w\<lparr>cache := Map.empty, cacheGetFault := None\<rparr>) code = None"
  by (simp add: getFromCache_def cacheRepository_get_def)

lemma ResolveUrl_execute_miss:
  "code \<noteq> [] \<Longrightarrow> \<not> truthy (getFromCache w code) \<Longrightarrow>
   fst (ResolveUrl_execute a w code rd) =
     (case findByShortCode w code of
        Inl e \<Rightarrow> Inl e
      | Inr None \<Rightarrow> Inl UrlNotFound
      | Inr (Some l) \<Rightarrow>
          if \<not> isActive l then Inl LinkDeactivated
          else if (case expiresAt l of None \<Rightarrow> False | Some t \<Rightarrow> now w > t) then Inl LinkExpired
          else Inr (originalUrl l, Some l))"
  by (simp add: ResolveUrl_execute_def Let_def split: sum.splits option.splits)

lemma ResolveUrl_execute_get_fault:
  assumes "cacheGetFault w = Some f"
  shows "fst (ResolveUrl_execute a w code rd)
     = fst (ResolveUrl_execute a (w\<lparr>cache := Map.empty, cacheGetFault := None\<rparr>) code rd)"
proof (cases "code = []")
  case True
  then show ?thesis by (simp add: ResolveUrl_execute_def)
next
  case False
  have 1: "\<not> truthy (getFromCache w code)"
    using getFromCache_fault [OF assms] by (simp add: truthy_def)
  have 2: "\<not> truthy (getFromCache (w\<lparr>cache := Map.empty, cacheGetFault := None\<rparr>) code)"
    by (simp add: getFromCache_empty truthy_def)
  show ?thesis
    by (simp add: ResolveUrl_execute_miss [OF False 1] ResolveUrl_execute_miss [OF False 2]
        findByShortCode_def split: option.splits)
qed

lemma ResolveUrl_execute_set_fault:
  "fst (ResolveUrl_execute a (w\<lparr>cacheSetFault := x\<rparr>) code rd) = fst (ResolveUrl_execute a w code rd)"
  by (simp add: ResolveUrl_execute_def Let_def getFromCache_def cacheRepository_get_def
      findByShortCode_def split: option.splits sum.splits)

lemma ResolveUrl_execute_no_CacheError: "fst (ResolveUrl_execute a w code rd) \<noteq> Inl CacheError"
  by (auto simp: ResolveUrl_execute_def Let_def findByShortCode_def
      split: option.splits sum.splits if_splits)

lemma ResolveUrl_execute_store_error:
  "code \<noteq> [] \<Longrightarrow> \<not> truthy (getFromCache w code) \<Longrightarrow> findByShortCode w code = Inl e \<Longrightarrow>
   ResolveUrl_execute a w code rd = (Inl e, w)"
  by (simp add: ResolveUrl_execute_def)

section \<open>The concrete instances, evaluated\<close>

lemmas string_defs = normalizeUrl_def ensureProtocol_def hasProtocol_def startsWith_def
  endsWith_def slice_0_minus1_def trim_def isWhiteSpace_def

lemma promo_normalize: "normalizeUrl ''https://example.com/new'' = ''https://example.com/new''"
  by (simp add: string_defs)

lemma promo_trim: "trim ''https://example.com/new'' = ''https://example.com/new''"
  "trim ''promo'' = ''promo''"
  by (simp_all add: string_defs)

lemma promo_alias: "isValidCustomAlias ''promo''"
  by (simp add: isValidCustomAlias_def isAliasChar_def)

lemma promo_parses: "sampleParses ''https://example.com/new''"
  by (simp add: sampleParses_def hasProtocol_def startsWith_def)

lemma promo_find: "findByOriginalUrl (sampleWorld []) ''https://example.com/new'' = Inr None"
  by (simp add: findByOriginalUrl_def sampleWorld_def)

lemma promo_select:
  "selectShortCode (sampleWorld []) (Some ''promo'') = Some (Inr ''promo'', sampleWorld [])"
  by (simp add: selectShortCode_def truthy_def promo_alias customAliasExists_def sampleWorld_def)

text \<open>
  What an instance needs of the URL parser is an assumption of its evaluation, for every
  parser; the stand-in meets it.
\<close>

lemma promo_execute_any_parser:
  assumes "parses ''https://example.com/new''"
  shows "CreateShortUrl_execute parses (sampleWorld []) (promoInput\<lparr>expiresAt := e\<rparr>)
     = Some (Inr (promoLink\<lparr>expiresAt := e\<rparr>),
         (sampleWorld [promoLink\<lparr>expiresAt := e\<rparr>])
           \<lparr>cache := [''url:promo'' \<mapsto> (''https://example.com/new'', 86401000)]\<rparr>)"
  using assms
  by (simp add: Let_def CreateShortUrl_execute_def promoInput_def promo_normalize promo_find
      promo_select new_Url_def create_def castUrlDoc_def promo_trim promoLink_def
      CreateShortUrl_cacheUrl_def cacheRepository_set_def)
     (simp add: sampleWorld_def)

lemma promo_execute:
  "CreateShortUrl_execute sampleParses (sampleWorld []) (promoInput\<lparr>expiresAt := e\<rparr>)
     = Some (Inr (promoLink\<lparr>expiresAt := e\<rparr>),
         (sampleWorld [promoLink\<lparr>expiresAt := e\<rparr>])
           \<lparr>cache := [''url:promo'' \<mapsto> (''https://example.com/new'', 86401000)]\<rparr>)"
  by (rule promo_execute_any_parser [of sampleParses, OF promo_parses])

lemma promo_first:
  "CreateShortUrl_execute sampleParses (sampleWorld []) promoInput = Some (Inr promoLink, promoWorld)"
  using promo_execute [of "Some 500"] by (simp add: promoInput_def promoLink_def promoWorld_def)

lemma promoAgain_normalize:
  "normalizeUrl (originalUrl promoAgain) = normalizeUrl (originalUrl promoInput)"
  by (simp add: promoAgain_def promoInput_def string_defs)

lemma page_normalize: "normalizeUrl ''example.com/page/'' = ''https://example.com/page''"
  by (simp add: string_defs)

lemma page_trim: "trim ''https://example.com/page'' = ''https://example.com/page''"
  by (simp add: string_defs)

lemma page_find:
  "findByOriginalUrl (sampleWorld [sampleLink]) (normalizeUrl (originalUrl pageInput))
     = Inr (Some sampleLink)"
  by (simp add: pageInput_def page_normalize findByOriginalUrl_def page_trim sample_defs)

lemma clash_normalize: "normalizeUrl ''https://example.com/other'' = ''https://example.com/other''"
  by (simp add: string_defs)

lemma clash_find:
  "findByOriginalUrl (sampleWorld [sampleLink]) (normalizeUrl (originalUrl clashInput)) = Inr None"
  by (simp add: clashInput_def clash_normalize findByOriginalUrl_def sample_defs string_defs)

lemma clash_select:
  "selectShortCode (sampleWorld [sampleLink]) (customAlias clashInput)
     = Some (Inr ''abc1234'', sampleWorld [sampleLink])"
  by (simp add: clashInput_def selectShortCode_def truthy_def isValidCustomAlias_def
      isAliasChar_def customAliasExists_def sample_defs)

lemma clash_parses: "sampleParses ''https://example.com/other''"
  by (simp add: sampleParses_def hasProtocol_def startsWith_def)

lemma clash_new_Url_any_parser:
  assumes "parses ''https://example.com/other''"
  shows "new_Url parses
     \<lparr>originalUrl = normalizeUrl (originalUrl clashInput), customAlias = customAlias clashInput,
      userId = userId clashInput, expiresAt = expiresAt clashInput, shortCode = ''abc1234'',
      createdAt = now (sampleWorld [sampleLink]), isActive = True\<rparr>
   = Inr \<lparr>originalUrl = ''https://example.com/other'', customAlias = Some ''abc1234'',
      userId = None, expiresAt = None, shortCode = ''abc1234'', createdAt = 1000,
      isActive = True\<rparr>"
  using assms by (simp add: clashInput_def clash_normalize new_Url_def sampleWorld_def)

lemma clash_new_Url:
  "new_Url sampleParses
     \<lparr>originalUrl = normalizeUrl (originalUrl clashInput), customAlias = customAlias clashInput,
      userId = userId clashInput, expiresAt = expiresAt clashInput, shortCode = ''abc1234'',
      createdAt = now (sampleWorld [sampleLink]), isActive = True\<rparr>
   = Inr \<lparr>originalUrl = ''https://example.com/other'', customAlias = Some ''abc1234'',
      userId = None, expiresAt = None, shortCode = ''abc1234'', createdAt = 1000,
      isActive = True\<rparr>"
  by (rule clash_new_Url_any_parser [of sampleParses, OF clash_parses])

lemma clash_create:
  "create (sampleWorld [sampleLink])
     \<lparr>originalUrl = ''https://example.com/other'', customAlias = Some ''abc1234'',
      userId = None, expiresAt = None, shortCode = ''abc1234'', createdAt = 1000,
      isActive = True\<rparr>
   = (Inl (StoreError DuplicateKey), sampleWorld [sampleLink])"
  by (simp add: create_def castUrlDoc_def Let_def trim_abc1234 sample_defs string_defs)

lemma clash_execute_any_parser:
  assumes "parses ''https://example.com/other''"
  shows "CreateShortUrl_execute parses (sampleWorld [sampleLink]) clashInput
     = Some (Inl (StoreError DuplicateKey), sampleWorld [sampleLink])"
  using clash_find clash_select clash_new_Url_any_parser [of parses, OF assms] clash_create
  by (simp add: CreateShortUrl_execute_def)

lemma clash_execute:
  "CreateShortUrl_execute sampleParses (sampleWorld [sampleLink]) clashInput
     = Some (Inl (StoreError DuplicateKey), sampleWorld [sampleLink])"
  by (rule clash_execute_any_parser [of sampleParses, OF clash_parses])

lemma ftp_parses: "sampleParses ''https://ftp://example.com''"
  by (simp add: sampleParses_def hasProtocol_def startsWith_def)

lemma ftp_execute_any_parser:
  assumes p: "parses ''https://ftp://example.com''"
  shows "CreateShortUrl_execute parses (sampleWorld []) ftpInput
     = Some (Inr ftpLink, (sampleWorld [ftpLink])
         \<lparr>cache := [''url:files'' \<mapsto> (''https://ftp://example.com'', 86401000)]\<rparr>)"
proof -
  have n: "normalizeUrl ''ftp://example.com'' = ''https://ftp://example.com''"
    by (simp add: string_defs)
  have t: "trim ''https://ftp://example.com'' = ''https://ftp://example.com''"
    "trim ''files'' = ''files''"
    by (simp_all add: string_defs)
  have s: "selectShortCode (sampleWorld []) (Some ''files'') = Some (Inr ''files'', sampleWorld [])"
    by (simp add: selectShortCode_def truthy_def isValidCustomAlias_def isAliasChar_def
        customAliasExists_def sampleWorld_def)
  have f: "findByOriginalUrl (sampleWorld []) ''https://ftp://example.com'' = Inr None"
    by (simp add: findByOriginalUrl_def sampleWorld_def)
  show ?thesis
    by (simp add: Let_def CreateShortUrl_execute_def ftpInput_def n f s new_Url_def p create_def
        castUrlDoc_def t ftpLink_def CreateShortUrl_cacheUrl_def cacheRepository_set_def)
       (simp add: sampleWorld_def)
qed

lemma ftp_execute:
  "CreateShortUrl_execute sampleParses (sampleWorld []) ftpInput
     = Some (Inr ftpLink, (sampleWorld [ftpLink])
         \<lparr>cache := [''url:files'' \<mapsto> (''https://ftp://example.com'', 86401000)]\<rparr>)"
  by (rule ftp_execute_any_parser [of sampleParses, OF ftp_parses])

lemma space_normalize: "normalizeUrl ''https://a b'' = ''https://a b''"
  by (simp add: string_defs)

lemma space_rejected: "\<not> sampleParses ''https://a b''"
  by (simp add: sampleParses_def)

lemma space_find: "findByOriginalUrl (sampleWorld []) ''https://a b'' = Inr None"
  by (simp add: findByOriginalUrl_def sampleWorld_def)

lemma space_bad_alias:
  "CreateShortUrl_execute parses (sampleWorld []) (spaceInput ''a b!'')
     = Some (Inl InvalidAliasFormat, sampleWorld [])"
  by (simp add: CreateShortUrl_execute_def spaceInput_def space_normalize space_find
      selectShortCode_def truthy_def isValidCustomAlias_def isAliasChar_def)

lemma drawA_7: "drawA 7 = ''aaaaaaa''"
  by (simp add: drawA_def eval_nat_numeral)

lemma drawB_8: "drawB 8 = ''bbbbbbbb''"
  by (simp add: drawB_def eval_nat_numeral)

lemma collision_exists:
  "shortCodeExists collisionWorld ''aaaaaaa'' = Inr True"
  "shortCodeExists collisionWorld ''bbbbbbbb'' = Inr False"
  by (simp_all add: shortCodeExists_def collisionWorld_def sample_defs string_defs)

section \<open>Creation is idempotent per URL\<close>

text \<open>
  C2.  When the record store already holds a Link for the normalised \<open>originalUrl\<close> of a
  creation input, \<open>CreateShortUrl.execute\<close> returns that Link and leaves the whole state as
  it was: nothing is persisted, no code is drawn (the generator's length and the supply of
  \<^verbatim>\<open>nanoid\<close> results are untouched), whatever \<open>customAlias\<close> and \<open>expiresAt\<close> the input
  carries.  Consequently, after a creation that returned a Link, a second creation with the
  same normalised \<open>originalUrl\<close> returns the same Link, hence the same code, changes
  nothing, and the store holds exactly one Link for that URL (given that it held at most one
  before the first creation).
\<close>

theorem CreateShortUrl_idempotent_per_url:
  "(findByOriginalUrl w (normalizeUrl (originalUrl inp)) = Inr (Some l) \<longrightarrow>
      CreateShortUrl_execute parses w inp = Some (Inr l, w)) \<and>
   (CreateShortUrl_execute parses w inp = Some (Inr l1, w1) \<and>
    normalizeUrl (originalUrl inp2) = normalizeUrl (originalUrl inp) \<and>
    length (filter (\<lambda>d. originalUrl d = trim (normalizeUrl (originalUrl inp))) (urls w)) \<le> 1 \<longrightarrow>
      CreateShortUrl_execute parses2 w1 inp2 = Some (Inr l1, w1) \<and>
      length (filter (\<lambda>d. originalUrl d = trim (normalizeUrl (originalUrl inp))) (urls w1)) = 1)"
  using CreateShortUrl_execute_existing [of w inp l parses]
    CreateShortUrl_execute_twice [of parses w inp l1 w1 inp2 parses2]
  by blast

text \<open>
  C2, at concrete inputs: a creation for \<open>example.com/page/\<close> with an alias and an expiry,
  when \<open>https://example.com/page\<close> is stored; and two creations for
  \<open>https://example.com/new\<close> from an empty store.
\<close>

theorem CreateShortUrl_idempotent_per_url_witness:
  "CreateShortUrl_execute sampleParses (sampleWorld [sampleLink]) pageInput
     = Some (Inr sampleLink, sampleWorld [sampleLink]) \<and>
   CreateShortUrl_execute sampleParses (sampleWorld []) promoInput = Some (Inr promoLink, promoWorld) \<and>
   CreateShortUrl_execute sampleParses promoWorld promoAgain = Some (Inr promoLink, promoWorld) \<and>
   length (filter (\<lambda>d. originalUrl d = ''https://example.com/new'') (urls promoWorld)) = 1"
proof -
  have inv: "length (filter (\<lambda>d. originalUrl d = trim (normalizeUrl (originalUrl promoInput)))
      (urls (sampleWorld []))) \<le> 1"
    by (simp add: sampleWorld_def)
  have n: "trim (normalizeUrl (originalUrl promoInput)) = ''https://example.com/new''"
    by (simp add: promoInput_def promo_normalize promo_trim)
  from CreateShortUrl_idempotent_per_url
    [of "sampleWorld [sampleLink]" pageInput sampleLink sampleParses sampleLink
        "sampleWorld [sampleLink]" pageInput sampleParses]
    page_find
  have a: "CreateShortUrl_execute sampleParses (sampleWorld [sampleLink]) pageInput
     = Some (Inr sampleLink, sampleWorld [sampleLink])" by blast
  from CreateShortUrl_idempotent_per_url
    [of "sampleWorld []" promoInput sampleLink sampleParses promoLink promoWorld promoAgain
        sampleParses]
    promo_first promoAgain_normalize inv
  have b: "CreateShortUrl_execute sampleParses promoWorld promoAgain = Some (Inr promoLink, promoWorld) \<and>
      length (filter (\<lambda>d. originalUrl d = trim (normalizeUrl (originalUrl promoInput)))
        (urls promoWorld)) = 1" by blast
  from a b promo_first show ?thesis by (simp add: n)
qed

section \<open>The facade's resolve is not callable\<close>

lemma getMember_resolveUrl: "getMember ''resolveUrl'' = JsObject ''ResolveUrl''"
  by (simp add: getMember_def ShortenerService_fields_def)

lemma getMember_shortenUrl: "getMember ''shortenUrl'' = JsFunction ''shortenUrl''"
  by (simp add: getMember_def ShortenerService_fields_def ShortenerService_prototype_def)

lemma getMember_createShortUrl: "getMember ''createShortUrl'' = JsObject ''CreateShortUrl''"
  by (simp add: getMember_def ShortenerService_fields_def)

text \<open>
  C3.  The member \<open>resolveUrl\<close> of the service facade is the \<^verbatim>\<open>ResolveUrl\<close> use-case
  object that the constructor assigned, which hides the prototype method of the same name.
  So for every short code, request data and state, the call
  \<^verbatim>\<open>shortenerService.resolveUrl(shortCode, requestData)\<close> fails with a type error, returns no
  original URL and changes nothing.
\<close>

theorem shortenerService_resolveUrl_not_callable:
  "getMember ''resolveUrl'' = JsObject ''ResolveUrl'' \<and>
   map_of ShortenerService_prototype ''resolveUrl'' = Some (JsFunction ''resolveUrl'') \<and>
   shortenerService_call parses w (CallResolveUrl code rd) = Some (Inl TypeError, w)"
  by (simp add: shortenerService_call_def getMember_resolveUrl ShortenerService_prototype_def)

text \<open>
  For comparison: \<^verbatim>\<open>shortenUrl\<close> has no field of its name and reaches its use case, and the
  body of the hidden method would have resolved the code.
\<close>

lemma shortenerService_shortenUrl:
  "shortenerService_call parses w (CallShortenUrl urlData)
     = map_option (\<lambda>(r, w'). (map_sum id ShortenedUrl r, w'))
         (CreateShortUrl_execute parses w urlData)"
  by (simp add: shortenerService_call_def getMember_shortenUrl getMember_createShortUrl)

lemma resolveUrl_method_body:
  "methodBody parses w (CallResolveUrl code rd)
     = (case ResolveUrl_execute False w code rd of
          (r, w') \<Rightarrow> Some (map_sum id (\<lambda>result. OriginalUrl (fst result)) r, w'))"
  by (simp add: getMember_resolveUrl)

section \<open>Creation does not look at the expiry\<close>

text \<open>
  C4 (as the code has it).  \<open>CreateShortUrl.execute\<close> never compares \<open>expiresAt\<close> with the
  current time.  Whenever creating an input without \<open>expiresAt\<close> persists and returns a new
  Link, creating the same input with any \<open>expiresAt\<close>, also one that is not after now,
  persists and returns the same Link with that \<open>expiresAt\<close>.
\<close>

theorem CreateShortUrl_expiresAt_unchecked:
  assumes "findByOriginalUrl w (normalizeUrl (originalUrl inp)) = Inr None"
    and "CreateShortUrl_execute parses w (inp\<lparr>expiresAt := None\<rparr>) = Some (Inr l, w1)"
  shows "CreateShortUrl_execute parses w (inp\<lparr>expiresAt := e\<rparr>)
     = Some (Inr (l\<lparr>expiresAt := e\<rparr>), w1\<lparr>urls := urls w @ [l\<lparr>expiresAt := e\<rparr>]\<rparr>)"
proof -
  let ?n = "normalizeUrl (originalUrl inp)"
  from assms(2) show ?thesis
  proof (cases rule: CreateShortUrl_execute_Inr_cases)
    case existing
    with assms(1) show ?thesis by simp
  next
    case (created code ws wc)
    let ?u = "\<lparr>originalUrl = ?n, customAlias = customAlias inp, userId = userId inp,
      expiresAt = None, shortCode = code, createdAt = now ws, isActive = True\<rparr>"
    from created(5) have c: "create ws ?u = (Inr l, wc)" by simp
    from create_Inr(2) [OF c] have wc: "wc = ws\<lparr>urls := urls ws @ [l]\<rparr>" .
    from created(2) have ws: "urls ws = urls w" by (auto dest: selectShortCode_fields(1))
    have n: "new_Url parses (?u\<lparr>expiresAt := e\<rparr>) = Inr (?u\<lparr>expiresAt := e\<rparr>)"
      using created(3,4) by (simp add: new_Url_def normalizeUrl_not_Nil)
    have "CreateShortUrl_execute parses w (inp\<lparr>expiresAt := e\<rparr>)
        = Some (Inr (l\<lparr>expiresAt := e\<rparr>),
            CreateShortUrl_cacheUrl (ws\<lparr>urls := urls ws @ [l\<lparr>expiresAt := e\<rparr>]\<rparr>) code ?n)"
      using assms(1) created(2) n create_expiresAt [OF c, of e]
      by (simp add: CreateShortUrl_execute_def)
    then show ?thesis
      by (simp add: created(6) wc ws CreateShortUrl_cacheUrl_urls_update)
  qed
qed

theorem CreateShortUrl_expiresAt_unchecked_witness:
  "findByOriginalUrl (sampleWorld []) (normalizeUrl (originalUrl promoInput)) = Inr None \<and>
   CreateShortUrl_execute sampleParses (sampleWorld []) (promoInput\<lparr>expiresAt := None\<rparr>)
     = Some (Inr (promoLink\<lparr>expiresAt := None\<rparr>),
         (sampleWorld [promoLink\<lparr>expiresAt := None\<rparr>])
           \<lparr>cache := [''url:promo'' \<mapsto> (''https://example.com/new'', 86401000)]\<rparr>) \<and>
   CreateShortUrl_execute sampleParses (sampleWorld []) (promoInput\<lparr>expiresAt := Some 500\<rparr>)
     = Some (Inr (promoLink\<lparr>expiresAt := Some 500\<rparr>), promoWorld)"
proof -
  have f: "findByOriginalUrl (sampleWorld []) (normalizeUrl (originalUrl promoInput)) = Inr None"
    by (simp add: promoInput_def promo_normalize promo_find)
  note e = promo_execute [of None]
  from CreateShortUrl_expiresAt_unchecked [OF f e, of "Some 500"]
  have "CreateShortUrl_execute sampleParses (sampleWorld []) (promoInput\<lparr>expiresAt := Some 500\<rparr>)
     = Some (Inr (promoLink\<lparr>expiresAt := Some 500\<rparr>), promoWorld)"
    by (simp add: promoWorld_def promoLink_def sampleWorld_def)
  with f e show ?thesis by simp
qed

text \<open>
  C4 (as stated) fails: at time 1000, a creation with \<open>expiresAt\<close> 500 succeeds and the Link
  is in the store.
\<close>

theorem CreateShortUrl_accepts_past_expiresAt:
  "expiresAt promoInput = Some 500 \<and> 500 \<le> now (sampleWorld []) \<and>
   CreateShortUrl_execute sampleParses (sampleWorld []) promoInput
     = Some (Inr promoLink,
         (sampleWorld [promoLink])\<lparr>cache := [''url:promo'' \<mapsto> (''https://example.com/new'', 86401000)]\<rparr>)"
  using promo_execute [of "Some 500"]
  by (simp add: promoInput_def promoLink_def) (simp add: sampleWorld_def)

section \<open>A uniqueness conflict is not retried\<close>

text \<open>
  The record of calls adds nothing to what the method does: without the record, and with no
  racing creator, the definitions with a record are the ones without.
\<close>

lemma generateLoop_traced_erase:
  "map_option (\<lambda>(r, len', ds', calls). (r, len', ds')) (generateLoop_traced w len att ds)
     = generateLoop w len att ds"
proof (induction ds arbitrary: len att)
  case Nil
  then show ?case by simp
next
  case (Cons d ds)
  show ?case
  proof (cases "shortCodeExists w (d len)")
    case (Inl e)
    then show ?thesis by simp
  next
    case (Inr ex)
    then show ?thesis
      by (simp add: Let_def Cons.IH [symmetric] split: option.splits)
  qed
qed

lemma generateLoop_traced_calls:
  "generateLoop_traced w len att ds = Some (r, len', ds', calls) \<Longrightarrow>
   length calls + length ds' = length ds \<and> list_all isShortCodeExistsCall calls \<and>
   calls \<noteq> [] \<and> (\<forall>c. r = Inr c \<longrightarrow> last calls = CallShortCodeExists c)"
proof (induction ds arbitrary: len att r len' ds' calls)
  case Nil
  then show ?case by simp
next
  case (Cons d ds)
  show ?case
  proof (cases "shortCodeExists w (d len)")
    case (Inl e)
    with Cons.prems show ?thesis by auto
  next
    case (Inr ex)
    show ?thesis
    proof (cases ex)
      case False
      with Inr Cons.prems show ?thesis by (auto simp: Let_def)
    next
      case True
      with Inr Cons.prems obtain l a calls' where
        g: "generateLoop_traced w l a ds = Some (r, len', ds', calls')"
        and c: "calls = CallShortCodeExists (d len) # calls'"
        by (auto simp: Let_def split: if_splits option.splits)
      from Cons.IH [OF g] c show ?thesis by auto
    qed
  qed
qed

lemma selectShortCode_traced_erase:
  "map_option (\<lambda>(r, w', calls). (r, w')) (selectShortCode_traced w alias) = selectShortCode w alias"
proof -
  have "map_option (\<lambda>(r, w', calls). (r, w')) (generateUniqueShortCode_traced w)
      = generateUniqueShortCode w"
    by (simp add: generateUniqueShortCode_traced_def generateUniqueShortCode_def
        generateLoop_traced_erase [symmetric] split: option.splits)
  then show ?thesis
    by (auto simp: selectShortCode_traced_def selectShortCode_def split: sum.splits)
qed

lemma selectShortCode_traced_Some:
  assumes "selectShortCode_traced w alias = Some (r, ws, calls)"
  shows "selectShortCode w alias = Some (r, ws)"
  using selectShortCode_traced_erase [of w "alias"] assms by simp

lemma urls_self_update [simp]: "w\<lparr>urls := urls w @ []\<rparr> = w"
  by simp

lemma CreateShortUrl_execute_traced_erase:
  "map_option (\<lambda>(r, w', calls). (r, w')) (CreateShortUrl_execute_traced parses [] w inp)
     = CreateShortUrl_execute parses w inp"
  using selectShortCode_traced_erase [of w "customAlias inp"]
  by (auto simp: CreateShortUrl_execute_traced_def CreateShortUrl_execute_def Let_def
      split: sum.splits option.splits prod.splits)

lemma selectShortCode_traced_calls:
  assumes "selectShortCode_traced w alias = Some (Inr code, ws, calls)"
  shows "(truthy alias \<longrightarrow> ws = w \<and> calls = [CallCustomAliasExists (the alias)]) \<and>
    (\<not> truthy alias \<longrightarrow>
       list_all isShortCodeExistsCall calls \<and> last calls = CallShortCodeExists code \<and>
       length calls + length (entropy ws) = length (entropy w))"
proof (cases "truthy alias")
  case True
  with assms show ?thesis
    by (auto simp: selectShortCode_traced_def split: if_splits sum.splits)
next
  case False
  with assms obtain len ds where
    g: "generateLoop_traced w (urlLength w) 0 (entropy w) = Some (Inr code, len, ds, calls)"
    and ws: "ws = w\<lparr>urlLength := len, entropy := ds\<rparr>"
    by (auto simp: selectShortCode_traced_def generateUniqueShortCode_traced_def
        split: option.splits)
  from generateLoop_traced_calls [OF g] ws False show ?thesis by simp
qed

text \<open>The sample data of the two conflicts.\<close>

lemma clash_select_traced:
  "selectShortCode_traced (sampleWorld [sampleLink]) (customAlias clashInput)
     = Some (Inr ''abc1234'', sampleWorld [sampleLink], [CallCustomAliasExists ''abc1234''])"
  by (simp add: clashInput_def selectShortCode_traced_def truthy_def isValidCustomAlias_def
      isAliasChar_def customAliasExists_def sample_defs)

lemma race_find:
  "findByOriginalUrl raceWorld (normalizeUrl (originalUrl raceInput)) = Inr None"
  by (simp add: raceInput_def clash_normalize findByOriginalUrl_def raceWorld_def sampleWorld_def)

lemma race_select_traced:
  "selectShortCode_traced raceWorld (customAlias raceInput)
     = Some (Inr ''aaaaaaa'', raceWorld\<lparr>entropy := [drawB]\<rparr>,
         [CallShortCodeExists ''aaaaaaa''])"
  by (simp add: raceInput_def selectShortCode_traced_def truthy_def
      generateUniqueShortCode_traced_def raceWorld_def sampleWorld_def drawA_7
      shortCodeExists_def Let_def)

lemma race_new_Url:
  assumes "parses ''https://example.com/other''"
  shows "new_Url parses
     \<lparr>originalUrl = normalizeUrl (originalUrl raceInput), customAlias = customAlias raceInput,
      userId = userId raceInput, expiresAt = expiresAt raceInput, shortCode = ''aaaaaaa'',
      createdAt = now (raceWorld\<lparr>entropy := [drawB]\<rparr>), isActive = True\<rparr>
   = Inr \<lparr>originalUrl = ''https://example.com/other'', customAlias = None,
      userId = None, expiresAt = None, shortCode = ''aaaaaaa'', createdAt = 1000,
      isActive = True\<rparr>"
  using assms
  by (simp add: raceInput_def clash_normalize new_Url_def raceWorld_def sampleWorld_def)

lemma race_create:
  "create (raceWorld\<lparr>entropy := [drawB],
             urls := urls (raceWorld\<lparr>entropy := [drawB]\<rparr>) @ [racingLink]\<rparr>)
     \<lparr>originalUrl = ''https://example.com/other'', customAlias = None,
      userId = None, expiresAt = None, shortCode = ''aaaaaaa'', createdAt = 1000,
      isActive = True\<rparr>
   = (Inl (StoreError DuplicateKey),
      raceWorld\<lparr>entropy := [drawB],
             urls := urls (raceWorld\<lparr>entropy := [drawB]\<rparr>) @ [racingLink]\<rparr>)"
  by (simp add: create_def castUrlDoc_def Let_def raceWorld_def sampleWorld_def racingLink_def
      string_defs)

text \<open>
  C5 (as the code has it).  When the record store rejects the persist step of a creation
  with a uniqueness conflict on the code, be the code a custom alias that is another Link's
  code or a generated code that a racing creator persisted first, \<open>CreateShortUrl.execute\<close>
  fails with the store's own duplicate-key error.  The calls of the URL repository it has
  made by then are, in this order: the lookup by URL, the calls of its one code selection
  (for an alias one alias check and nothing else; for a generated code one existence check
  for each result of \<^verbatim>\<open>nanoid\<close> it consumed, the last of them for the code it selected), and
  one persist, the rejected one, after which there is no call at all: no second selection
  and no second persist.  The store holds what it held and what the racing creators
  persisted, and the cache is as before the call.
\<close>

theorem CreateShortUrl_conflict_single_attempt:
  assumes "findByOriginalUrl w (normalizeUrl (originalUrl inp)) = Inr None"
    and "selectShortCode_traced w (customAlias inp) = Some (Inr code, ws, calls)"
    and "new_Url parses
           \<lparr>originalUrl = normalizeUrl (originalUrl inp), customAlias = customAlias inp,
            userId = userId inp, expiresAt = expiresAt inp,
            shortCode = code, createdAt = now ws, isActive = True\<rparr> = Inr u"
    and "create (ws\<lparr>urls := urls ws @ racing\<rparr>) u = (Inl (StoreError DuplicateKey), wc)"
  shows "CreateShortUrl_execute_traced parses racing w inp
       = Some (Inl (StoreError DuplicateKey), ws\<lparr>urls := urls w @ racing\<rparr>,
           CallFindByOriginalUrl (normalizeUrl (originalUrl inp)) # calls @ [CallCreate u]) \<and>
     length (filter isCallCreate
       (CallFindByOriginalUrl (normalizeUrl (originalUrl inp)) # calls @ [CallCreate u])) = 1 \<and>
     (truthy (customAlias inp) \<longrightarrow>
        ws = w \<and> calls = [CallCustomAliasExists (the (customAlias inp))]) \<and>
     (\<not> truthy (customAlias inp) \<longrightarrow>
        list_all isShortCodeExistsCall calls \<and> last calls = CallShortCodeExists code \<and>
        length calls + length (entropy ws) = length (entropy w)) \<and>
     cache ws = cache w \<and>
     (racing = [] \<longrightarrow>
        CreateShortUrl_execute parses w inp = Some (Inl (StoreError DuplicateKey), ws))"
proof -
  from assms(2) have sel: "selectShortCode w (customAlias inp) = Some (Inr code, ws)"
    by (rule selectShortCode_traced_Some)
  have u: "urls ws = urls w" and c: "cache ws = cache w"
    using selectShortCode_fields(1,3) [OF sel] by simp_all
  have wc: "wc = ws\<lparr>urls := urls ws @ racing\<rparr>" using create_Inl [OF assms(4)] .
  have 1: "CreateShortUrl_execute_traced parses racing w inp
       = Some (Inl (StoreError DuplicateKey), ws\<lparr>urls := urls w @ racing\<rparr>,
           CallFindByOriginalUrl (normalizeUrl (originalUrl inp)) # calls @ [CallCreate u])"
    using assms wc u by (simp add: CreateShortUrl_execute_traced_def)
  note k = selectShortCode_traced_calls [OF assms(2)]
  have nc: "filter isCallCreate calls = []"
  proof (cases "truthy (customAlias inp)")
    case True
    with k show ?thesis by simp
  next
    case False
    with k have "list_all isShortCodeExistsCall calls" by simp
    then show ?thesis by (induction calls) (auto elim: isShortCodeExistsCall.elims)
  qed
  have 2: "length (filter isCallCreate
       (CallFindByOriginalUrl (normalizeUrl (originalUrl inp)) # calls @ [CallCreate u])) = 1"
    by (simp add: nc)
  have 3: "CreateShortUrl_execute parses w inp = Some (Inl (StoreError DuplicateKey), ws)"
    if "racing = []"
    using assms(1,3,4) sel that create_Inl [OF assms(4)]
    by (simp add: CreateShortUrl_execute_def)
  from 1 2 3 k c show ?thesis by blast
qed

theorem CreateShortUrl_conflict_single_attempt_witness:
  "CreateShortUrl_execute_traced sampleParses [] (sampleWorld [sampleLink]) clashInput
     = Some (Inl (StoreError DuplicateKey), sampleWorld [sampleLink],
         [CallFindByOriginalUrl ''https://example.com/other'',
          CallCustomAliasExists ''abc1234'',
          CallCreate \<lparr>originalUrl = ''https://example.com/other'',
            customAlias = Some ''abc1234'', userId = None, expiresAt = None,
            shortCode = ''abc1234'', createdAt = 1000, isActive = True\<rparr>]) \<and>
   shortCodeExists raceWorld ''aaaaaaa'' = Inr False \<and>
   CreateShortUrl_execute_traced sampleParses [racingLink] raceWorld raceInput
     = Some (Inl (StoreError DuplicateKey),
         raceWorld\<lparr>entropy := [drawB], urls := [racingLink]\<rparr>,
         [CallFindByOriginalUrl ''https://example.com/other'',
          CallShortCodeExists ''aaaaaaa'',
          CallCreate \<lparr>originalUrl = ''https://example.com/other'',
            customAlias = None, userId = None, expiresAt = None,
            shortCode = ''aaaaaaa'', createdAt = 1000, isActive = True\<rparr>])"
proof -
  have c0: "create ((sampleWorld [sampleLink])\<lparr>urls := urls (sampleWorld [sampleLink]) @ []\<rparr>)
     \<lparr>originalUrl = ''https://example.com/other'', customAlias = Some ''abc1234'',
      userId = None, expiresAt = None, shortCode = ''abc1234'', createdAt = 1000,
      isActive = True\<rparr>
   = (Inl (StoreError DuplicateKey), sampleWorld [sampleLink])"
    using clash_create by simp
  note t1 = CreateShortUrl_conflict_single_attempt
    [where racing = "[]", OF clash_find clash_select_traced clash_new_Url c0]
  note t2 = CreateShortUrl_conflict_single_attempt
    [where racing = "[racingLink]", OF race_find race_select_traced
       race_new_Url [of sampleParses, OF clash_parses] race_create]
  have n: "normalizeUrl (originalUrl clashInput) = ''https://example.com/other''"
    "normalizeUrl (originalUrl raceInput) = ''https://example.com/other''"
    by (simp_all add: clashInput_def raceInput_def clash_normalize)
  have a: "CreateShortUrl_execute_traced sampleParses [] (sampleWorld [sampleLink]) clashInput
     = Some (Inl (StoreError DuplicateKey), sampleWorld [sampleLink],
         [CallFindByOriginalUrl ''https://example.com/other'',
          CallCustomAliasExists ''abc1234'',
          CallCreate \<lparr>originalUrl = ''https://example.com/other'',
            customAlias = Some ''abc1234'', userId = None, expiresAt = None,
            shortCode = ''abc1234'', createdAt = 1000, isActive = True\<rparr>])"
    using t1 by (simp add: n)
  have u: "urls raceWorld = []" by (simp add: raceWorld_def sampleWorld_def)
  have b: "CreateShortUrl_execute_traced sampleParses [racingLink] raceWorld raceInput
     = Some (Inl (StoreError DuplicateKey),
         raceWorld\<lparr>entropy := [drawB], urls := [racingLink]\<rparr>,
         [CallFindByOriginalUrl ''https://example.com/other'',
          CallShortCodeExists ''aaaaaaa'',
          CallCreate \<lparr>originalUrl = ''https://example.com/other'',
            customAlias = None, userId = None, expiresAt = None,
            shortCode = ''aaaaaaa'', createdAt = 1000, isActive = True\<rparr>])"
    using t2 by (simp add: n u)
  have e: "shortCodeExists raceWorld ''aaaaaaa'' = Inr False"
    by (simp add: shortCodeExists_def raceWorld_def sampleWorld_def)
  from a b e show ?thesis by simp
qed

text \<open>
  C5 (as stated) fails: the alias \<open>abc1234\<close> is no Link's custom alias but is the generated
  code of a stored Link, so the alias check passes, the persist step meets the unique index
  and the caller receives the store's duplicate-key error.
\<close>

theorem CreateShortUrl_conflict_surfaces_raw:
  "customAliasExists (sampleWorld [sampleLink]) ''abc1234'' = Inr False \<and>
   shortCodeExists (sampleWorld [sampleLink]) ''abc1234'' = Inr True \<and>
   CreateShortUrl_execute sampleParses (sampleWorld [sampleLink]) clashInput
     = Some (Inl (StoreError DuplicateKey), sampleWorld [sampleLink])"
  using clash_execute
  by (simp add: customAliasExists_def shortCodeExists_def trim_abc1234 sample_defs)

section \<open>When creation fails with an invalid URL\<close>

text \<open>
  C7 (as the code has it).  \<open>CreateShortUrl.execute\<close> fails with the entity's
  \<open>Invalid URL format\<close> error exactly when no Link exists for the normalised URL, the code
  selection (a valid and free alias, or a generated code) has returned a non-empty code, and
  the URL parser rejects the normalised string: the input with \<open>https://\<close> put in front
  unless it begins with \<open>http://\<close> or \<open>https://\<close>, and one trailing \<open>/\<close> removed.  A string
  with another scheme is given the \<open>https://\<close> prefix like any other and is not rejected for
  its scheme.
\<close>

theorem CreateShortUrl_InvalidUrl_iff:
  "CreateShortUrl_execute parses w inp = Some (Inl InvalidUrlFormat, w1) \<longleftrightarrow>
     findByOriginalUrl w (normalizeUrl (originalUrl inp)) = Inr None \<and>
     (\<exists>code. code \<noteq> [] \<and> selectShortCode w (customAlias inp) = Some (Inr code, w1)) \<and>
     \<not> parses (normalizeUrl (originalUrl inp))"
  (is "?lhs \<longleftrightarrow> ?rhs")
proof
  assume ?rhs
  then show ?lhs
    by (auto simp: CreateShortUrl_execute_def new_Url_def normalizeUrl_not_Nil)
next
  assume l: ?lhs
  show ?rhs
  proof (cases "findByOriginalUrl w (normalizeUrl (originalUrl inp))")
    case (Inl e)
    with l show ?thesis
      by (auto simp: CreateShortUrl_execute_def findByOriginalUrl_def split: if_splits)
  next
    case (Inr found)
    show ?thesis
    proof (cases found)
      case (Some x)
      with Inr l show ?thesis by (simp add: CreateShortUrl_execute_def)
    next
      case None
      show ?thesis
      proof (cases "selectShortCode w (customAlias inp)")
        case None
        with Inr \<open>found = None\<close> l show ?thesis by (simp add: CreateShortUrl_execute_def)
      next
        case (Some p)
        obtain rc ws where p: "p = (rc, ws)" by (cases p)
        show ?thesis
        proof (cases rc)
          case (Inl e)
          with Some p Inr \<open>found = None\<close> l have "e = InvalidUrlFormat"
            by (simp add: CreateShortUrl_execute_def)
          with selectShortCode_error [of w "customAlias inp" e ws] Some p Inl
          show ?thesis by auto
        next
          case (Inr code)
          with Some p \<open>findByOriginalUrl w (normalizeUrl (originalUrl inp)) = Inr found\<close>
            \<open>found = None\<close> l
          show ?thesis
            by (auto simp: CreateShortUrl_execute_def new_Url_def normalizeUrl_not_Nil
                create_def Let_def split: if_splits sum.splits prod.splits)
        qed
      qed
    qed
  qed
qed

theorem CreateShortUrl_InvalidUrl_iff_witness:
  "CreateShortUrl_execute sampleParses (sampleWorld []) (spaceInput ''promo'')
     = Some (Inl InvalidUrlFormat, sampleWorld [])"
proof -
  have "findByOriginalUrl (sampleWorld []) (normalizeUrl (originalUrl (spaceInput ''promo''))) = Inr None"
    by (simp add: spaceInput_def space_normalize space_find)
  moreover have "selectShortCode (sampleWorld []) (customAlias (spaceInput ''promo''))
      = Some (Inr ''promo'', sampleWorld [])"
    by (simp add: spaceInput_def promo_select)
  moreover have "\<not> sampleParses (normalizeUrl (originalUrl (spaceInput ''promo'')))"
    by (simp add: spaceInput_def space_normalize space_rejected)
  ultimately show ?thesis
    using CreateShortUrl_InvalidUrl_iff
      [of sampleParses "sampleWorld []" "spaceInput ''promo''" "sampleWorld []"]
    by blast
qed

text \<open>
  C7 (as stated) fails: \<open>ftp://example.com\<close> is shortened, as
  \<open>https://ftp://example.com\<close>; and \<open>https://a b\<close>, which does not parse, with the alias
  \<open>a b!\<close> fails with the alias error, not with the URL error.
\<close>

theorem CreateShortUrl_other_scheme_shortened:
  "CreateShortUrl_execute sampleParses (sampleWorld []) ftpInput
     = Some (Inr ftpLink, (sampleWorld [ftpLink])
         \<lparr>cache := [''url:files'' \<mapsto> (''https://ftp://example.com'', 86401000)]\<rparr>) \<and>
   originalUrl ftpInput = ''ftp://example.com'' \<and>
   originalUrl ftpLink = ''https://ftp://example.com'' \<and>
   \<not> sampleParses (ensureProtocol ''https://a b'') \<and>
   CreateShortUrl_execute sampleParses (sampleWorld []) (spaceInput ''a b!'')
     = Some (Inl InvalidAliasFormat, sampleWorld [])"
  using ftp_execute space_bad_alias space_rejected
  by (simp add: ftpInput_def ftpLink_def ensureProtocol_def startsWith_def)

section \<open>The generator escalates after five collisions\<close>

lemma createInSequence_urlLength_mono:
  "createInSequence parses w inputs = Some w2 \<Longrightarrow> urlLength w \<le> urlLength w2"
proof (induction inputs arbitrary: w)
  case Nil
  then show ?case by simp
next
  case (Cons input inputs)
  then obtain r w1 where e: "CreateShortUrl_execute parses w input = Some (r, w1)"
    and s: "createInSequence parses w1 inputs = Some w2"
    by (auto split: option.splits)
  from CreateShortUrl_execute_urlLength_mono [OF e] Cons.IH [OF s] show ?case by simp
qed

lemma generateLoop_code_drawn:
  "generateLoop w len att ds = Some (Inr c, len', ds') \<Longrightarrow>
   \<exists>d\<in>set ds. \<exists>n\<ge>len. c = d n"
proof (induction ds arbitrary: len att)
  case Nil
  then show ?case by simp
next
  case (Cons d ds)
  show ?case
  proof (cases "shortCodeExists w (d len)")
    case (Inl e)
    with Cons.prems show ?thesis by simp
  next
    case (Inr ex)
    show ?thesis
    proof (cases ex)
      case False
      with Inr Cons.prems have "c = d len" by (simp add: Let_def)
      then show ?thesis by auto
    next
      case True
      with Inr Cons.prems consider
        "generateLoop w (Suc len) 0 ds = Some (Inr c, len', ds')"
        | "generateLoop w len (Suc att) ds = Some (Inr c, len', ds')"
        by (auto simp: Let_def split: if_splits)
      then show ?thesis
      proof cases
        case 1
        from Cons.IH [OF 1] obtain d' n where "d' \<in> set ds" "Suc len \<le> n" "c = d' n" by blast
        then show ?thesis by (intro bexI [of _ d'] exI [of _ n]) auto
      next
        case 2
        from Cons.IH [OF 2] show ?thesis by auto
      qed
    qed
  qed
qed

lemma generateUniqueShortCode_code_drawn:
  assumes "generateUniqueShortCode w = Some (Inr c, w1)"
  shows "\<exists>d\<in>set (entropy w). \<exists>n\<ge>urlLength w. c = d n"
  using assms
  by (auto simp: generateUniqueShortCode_def split: option.splits dest!: generateLoop_code_drawn)

lemma generateUniqueShortCode_first_draw:
  assumes "entropy w = d # ds" and "shortCodeExists w (d (urlLength w)) = Inr False"
  shows "generateUniqueShortCode w = Some (Inr (d (urlLength w)), w\<lparr>entropy := ds\<rparr>)"
  using assms by (simp add: generateUniqueShortCode_def)

text \<open>
  C8.  With the target length at 7, when the existence check reports a collision for each
  of the first five draws, the generator goes on exactly as a fresh loop at length 8 with
  its counter at 0: the sixth draw is made at length 8, and is returned if it is free.
  However the generation ends, the length is at least 8 afterwards, and no later creation
  by the same generator lowers it.  After any number of later creations by the same
  generator, the next generation makes its first draw at the length the generator then
  has, which is at least 8, and returns that draw if it is free; and whatever code a later
  generation returns is a result of \<^verbatim>\<open>nanoid\<close> called with a size of at least 8.
\<close>

theorem generator_escalates_after_five_collisions:
  assumes "urlLength w = 7"
    and "entropy w = d1 # d2 # d3 # d4 # d5 # d6 # ds"
    and "list_all (\<lambda>d. shortCodeExists w (d 7) = Inr True) [d1, d2, d3, d4, d5]"
  shows "generateUniqueShortCode w =
           (case generateLoop w 8 0 (d6 # ds) of
              None \<Rightarrow> None
            | Some (r, len, ds') \<Rightarrow> Some (r, w\<lparr>urlLength := len, entropy := ds'\<rparr>)) \<and>
         (shortCodeExists w (d6 8) = Inr False \<longrightarrow>
            generateUniqueShortCode w = Some (Inr (d6 8), w\<lparr>urlLength := 8, entropy := ds\<rparr>)) \<and>
         (\<forall>r w1. generateUniqueShortCode w = Some (r, w1) \<longrightarrow>
            8 \<le> urlLength w1 \<and>
            (\<forall>parses inp r2 w2. CreateShortUrl_execute parses w1 inp = Some (r2, w2) \<longrightarrow>
               8 \<le> urlLength w2)) \<and>
         (\<forall>r w1 parses inputs w2.
            generateUniqueShortCode w = Some (r, w1) \<and>
            createInSequence parses w1 inputs = Some w2 \<longrightarrow>
              8 \<le> urlLength w2 \<and>
              (\<forall>d ds2. entropy w2 = d # ds2 \<and>
                   shortCodeExists w2 (d (urlLength w2)) = Inr False \<longrightarrow>
                 generateUniqueShortCode w2
                   = Some (Inr (d (urlLength w2)), w2\<lparr>entropy := ds2\<rparr>)) \<and>
              (\<forall>c w3. generateUniqueShortCode w2 = Some (Inr c, w3) \<longrightarrow>
                 8 \<le> urlLength w3 \<and> (\<exists>d\<in>set (entropy w2). \<exists>n\<ge>8. c = d n)))"
proof -
  have loop: "generateLoop w 7 0 (d1 # d2 # d3 # d4 # d5 # d6 # ds) = generateLoop w 8 0 (d6 # ds)"
    using generateLoop_five_collisions [OF assms(3), of "d6 # ds"] by simp
  have a: "generateUniqueShortCode w =
           (case generateLoop w 8 0 (d6 # ds) of
              None \<Rightarrow> None
            | Some (r, len, ds') \<Rightarrow> Some (r, w\<lparr>urlLength := len, entropy := ds'\<rparr>))"
    using assms(1,2) loop by (simp add: generateUniqueShortCode_def)
  have b: "generateUniqueShortCode w = Some (Inr (d6 8), w\<lparr>urlLength := 8, entropy := ds\<rparr>)"
    if "shortCodeExists w (d6 8) = Inr False"
    using a that by simp
  have c: "8 \<le> urlLength w1" if "generateUniqueShortCode w = Some (r, w1)" for r w1
  proof -
    from that a obtain len ds' where g: "generateLoop w 8 0 (d6 # ds) = Some (r, len, ds')"
      and w1: "w1 = w\<lparr>urlLength := len, entropy := ds'\<rparr>"
      by (auto split: option.splits)
    from generateLoop_mono [OF g] w1 show ?thesis by simp
  qed
  have d: "8 \<le> urlLength w2"
    if "generateUniqueShortCode w = Some (r, w1)"
      and "CreateShortUrl_execute parses w1 inp = Some (r2, w2)" for r w1 parses inp r2 w2
    using c [OF that(1)] CreateShortUrl_execute_urlLength_mono [OF that(2)] by simp
  have e: "8 \<le> urlLength w2"
    if "generateUniqueShortCode w = Some (r, w1)"
      and "createInSequence parses w1 inputs = Some w2" for r w1 parses inputs w2
    using c [OF that(1)] createInSequence_urlLength_mono [OF that(2)] by simp
  have f: "8 \<le> urlLength w3 \<and> (\<exists>d\<in>set (entropy w2). \<exists>n\<ge>8. c = d n)"
    if l: "8 \<le> urlLength w2" and g: "generateUniqueShortCode w2 = Some (Inr c, w3)"
    for w2 c w3
  proof -
    from generateUniqueShortCode_code_drawn [OF g] obtain d n
      where "d \<in> set (entropy w2)" "urlLength w2 \<le> n" "c = d n" by blast
    with l have "\<exists>d\<in>set (entropy w2). \<exists>n\<ge>8. c = d n"
      by (intro bexI [of _ d] exI [of _ n]) auto
    moreover from generateUniqueShortCode_fields(9) [OF g] l have "8 \<le> urlLength w3" by simp
    ultimately show ?thesis by simp
  qed
  show ?thesis
    using a b c d e f generateUniqueShortCode_first_draw by blast
qed

lemma drawB_7: "drawB 7 = ''bbbbbbb''"
  by (simp add: drawB_def eval_nat_numeral)

theorem generator_escalates_after_five_collisions_witness:
  "urlLength collisionWorld = 7 \<and>
   entropy collisionWorld = [drawA, drawA, drawA, drawA, drawA, drawB, drawB] \<and>
   shortCodeExists collisionWorld (drawA 7) = Inr True \<and>
   generateUniqueShortCode collisionWorld
     = Some (Inr ''bbbbbbbb'', collisionWorld\<lparr>urlLength := 8, entropy := [drawB]\<rparr>) \<and>
   generateUniqueShortCode (collisionWorld\<lparr>urlLength := 8, entropy := [drawB]\<rparr>)
     = Some (Inr ''bbbbbbbb'', collisionWorld\<lparr>urlLength := 8, entropy := []\<rparr>) \<and>
   ''bbbbbbbb'' \<noteq> drawB 7"
proof -
  let ?w1 = "collisionWorld\<lparr>urlLength := 8, entropy := [drawB]\<rparr>"
  have l: "urlLength collisionWorld = 7"
    and e: "entropy collisionWorld = drawA # drawA # drawA # drawA # drawA # drawB # [drawB]"
    by (simp_all add: collisionWorld_def sampleWorld_def)
  have c: "list_all (\<lambda>d. shortCodeExists collisionWorld (d 7) = Inr True)
      [drawA, drawA, drawA, drawA, drawA]"
    by (simp add: drawA_7 collision_exists)
  have f: "shortCodeExists collisionWorld (drawB 8) = Inr False"
    by (simp add: drawB_8 collision_exists)
  note t = generator_escalates_after_five_collisions [OF l e c]
  from t f have g1: "generateUniqueShortCode collisionWorld = Some (Inr (drawB 8), ?w1)"
    by blast
  have s: "createInSequence sampleParses ?w1 [] = Some ?w1" by simp
  have e2: "entropy ?w1 = drawB # []" and l2: "urlLength ?w1 = 8" by simp_all
  have "shortCodeExists ?w1 (drawB 8) = shortCodeExists collisionWorld (drawB 8)"
    by (simp add: shortCodeExists_def)
  with f have f2: "shortCodeExists ?w1 (drawB (urlLength ?w1)) = Inr False"
    by simp
  from t g1 s e2 f2
  have "generateUniqueShortCode ?w1 = Some (Inr (drawB (urlLength ?w1)), ?w1\<lparr>entropy := []\<rparr>)"
    by blast
  then have g2: "generateUniqueShortCode ?w1
      = Some (Inr ''bbbbbbbb'', collisionWorld\<lparr>urlLength := 8, entropy := []\<rparr>)"
    by (simp add: drawB_8)
  from l e g1 g2 show ?thesis by (simp add: drawB_8 drawA_7 drawB_7 collision_exists)
qed

section \<open>Cache failures: those that settle, and the one that does not\<close>

text \<open>
  A cache call that fails by throwing is absorbed.  A failing cache write changes neither
  what a creation returns nor what it leaves in the record store, and a creation never
  fails with a cache error.  A resolution whose cache read fails returns what it returns on
  an empty cache (it goes to the record store); a failing cache write does not change what
  it returns; it never fails with a cache error.  An error of the record store, in the
  lookup by URL, the alias check, the existence check of the generator, the persist step or
  the lookup by code, is what the use case fails with.
\<close>

lemma settling_cache_failures_absorbed_store_failures_propagate:
  "resultAndLinks (CreateShortUrl_execute parses (w\<lparr>cacheSetFault := Some f\<rparr>) inp)
     = resultAndLinks (CreateShortUrl_execute parses (w\<lparr>cacheSetFault := None\<rparr>) inp) \<and>
   CreateShortUrl_execute parses w inp \<noteq> Some (Inl CacheError, w1) \<and>
   (cacheGetFault w = Some f \<longrightarrow>
      fst (ResolveUrl_execute a w code rd)
        = fst (ResolveUrl_execute a (w\<lparr>cache := Map.empty, cacheGetFault := None\<rparr>) code rd)) \<and>
   fst (ResolveUrl_execute a (w\<lparr>cacheSetFault := Some f\<rparr>) code rd)
     = fst (ResolveUrl_execute a (w\<lparr>cacheSetFault := None\<rparr>) code rd) \<and>
   fst (ResolveUrl_execute a w code rd) \<noteq> Inl CacheError \<and>
   (findByOriginalUrl w (normalizeUrl (originalUrl inp)) = Inl e \<longrightarrow>
      CreateShortUrl_execute parses w inp = Some (Inl e, w)) \<and>
   (findByOriginalUrl w (normalizeUrl (originalUrl inp)) = Inr None \<and>
    customAlias inp = Some alias \<and> isValidCustomAlias alias \<and>
    customAliasExists w alias = Inl e \<longrightarrow>
      CreateShortUrl_execute parses w inp = Some (Inl e, w)) \<and>
   (findByOriginalUrl w (normalizeUrl (originalUrl inp)) = Inr None \<and>
    \<not> truthy (customAlias inp) \<and> entropy w = d # ds \<and>
    shortCodeExists w (d (urlLength w)) = Inl e \<longrightarrow>
      CreateShortUrl_execute parses w inp = Some (Inl e, w\<lparr>entropy := ds\<rparr>)) \<and>
   (findByOriginalUrl w (normalizeUrl (originalUrl inp)) = Inr None \<and>
    selectShortCode w (customAlias inp) = Some (Inr c, ws) \<and>
    new_Url parses
       \<lparr>originalUrl = normalizeUrl (originalUrl inp), customAlias = customAlias inp,
        userId = userId inp, expiresAt = expiresAt inp,
        shortCode = c, createdAt = now ws, isActive = True\<rparr> = Inr u \<and>
    create ws u = (Inl e, wc) \<longrightarrow>
      CreateShortUrl_execute parses w inp = Some (Inl e, ws)) \<and>
   (code \<noteq> [] \<and> \<not> truthy (getFromCache w code) \<and> findByShortCode w code = Inl e \<longrightarrow>
      ResolveUrl_execute a w code rd = (Inl e, w))"
proof -
  have 1: "resultAndLinks (CreateShortUrl_execute parses (w\<lparr>cacheSetFault := Some f\<rparr>) inp)
     = resultAndLinks (CreateShortUrl_execute parses (w\<lparr>cacheSetFault := None\<rparr>) inp)"
    by (simp only: CreateShortUrl_execute_cacheSetFault)
  have 4: "fst (ResolveUrl_execute a (w\<lparr>cacheSetFault := Some f\<rparr>) code rd)
     = fst (ResolveUrl_execute a (w\<lparr>cacheSetFault := None\<rparr>) code rd)"
    by (simp only: ResolveUrl_execute_set_fault)
  show ?thesis
    using 1 4 CreateShortUrl_execute_no_CacheError [of parses w inp w1]
      ResolveUrl_execute_get_fault [of w f a code rd]
      ResolveUrl_execute_no_CacheError [of a w code rd]
      CreateShortUrl_execute_find_error [of w inp e parses]
      CreateShortUrl_execute_alias_error [of w inp "alias" e parses]
      CreateShortUrl_execute_exists_error [of w inp d ds e parses]
      CreateShortUrl_execute_create_error [of w inp c ws parses u e wc]
      ResolveUrl_execute_store_error [of code w e a rd]
    by blast
qed

lemma settling_cache_failures_instance:
  "fst (ResolveUrl_execute False ((sampleWorld [sampleLink])\<lparr>cacheGetFault := Some ConnectFails\<rparr>)
        ''abc1234'' None)
     = Inr (''https://example.com/page'', Some sampleLink) \<and>
   resultAndLinks (CreateShortUrl_execute sampleParses
        ((sampleWorld [])\<lparr>cacheSetFault := Some CommandFails\<rparr>) promoInput)
     = Some (Inr promoLink, [promoLink]) \<and>
   CreateShortUrl_execute sampleParses
        ((sampleWorld [])\<lparr>storeFaults := {OpFindByOriginalUrl}\<rparr>) promoInput
     = Some (Inl (StoreError StoreUnavailable),
         (sampleWorld [])\<lparr>storeFaults := {OpFindByOriginalUrl}\<rparr>)"
proof -
  let ?w1 = "(sampleWorld [sampleLink])\<lparr>cacheGetFault := Some ConnectFails\<rparr>"
  let ?w3 = "(sampleWorld [])\<lparr>storeFaults := {OpFindByOriginalUrl}\<rparr>"
  note t1 = settling_cache_failures_absorbed_store_failures_propagate
    [where w = ?w1 and f = ConnectFails and a = False and code = "''abc1234''" and rd = None]
  note t2 = settling_cache_failures_absorbed_store_failures_propagate
    [where w = "sampleWorld []" and f = CommandFails and parses = sampleParses
       and inp = promoInput]
  note t3 = settling_cache_failures_absorbed_store_failures_propagate
    [where w = ?w3 and parses = sampleParses and inp = promoInput
       and e = "StoreError StoreUnavailable"]
  have g: "cacheGetFault ?w1 = Some ConnectFails" by simp
  have r0: "fst (ResolveUrl_execute False (?w1\<lparr>cache := Map.empty, cacheGetFault := None\<rparr>)
        ''abc1234'' None) = Inr (''https://example.com/page'', Some sampleLink)"
    by (simp add: ResolveUrl_execute_def getFromCache_def cacheRepository_get_def truthy_def
        findByShortCode_def trim_abc1234 sample_defs)
  from t1 g r0 have a: "fst (ResolveUrl_execute False ?w1 ''abc1234'' None)
     = Inr (''https://example.com/page'', Some sampleLink)" by simp
  have "(sampleWorld [])\<lparr>cacheSetFault := None\<rparr> = sampleWorld []" by (simp add: sampleWorld_def)
  with t2 have "resultAndLinks (CreateShortUrl_execute sampleParses
        ((sampleWorld [])\<lparr>cacheSetFault := Some CommandFails\<rparr>) promoInput)
     = resultAndLinks (CreateShortUrl_execute sampleParses (sampleWorld []) promoInput)" by simp
  moreover have "resultAndLinks (CreateShortUrl_execute sampleParses (sampleWorld []) promoInput)
     = Some (Inr promoLink, [promoLink])"
    by (simp add: promo_first resultAndLinks_def promoWorld_def) (simp add: sampleWorld_def)
  ultimately have b: "resultAndLinks (CreateShortUrl_execute sampleParses
        ((sampleWorld [])\<lparr>cacheSetFault := Some CommandFails\<rparr>) promoInput)
     = Some (Inr promoLink, [promoLink])"
    by simp
  have "findByOriginalUrl ?w3 (normalizeUrl (originalUrl promoInput))
     = Inl (StoreError StoreUnavailable)"
    by (simp add: findByOriginalUrl_def)
  with t3 have c: "CreateShortUrl_execute sampleParses ?w3 promoInput
     = Some (Inl (StoreError StoreUnavailable), ?w3)" by blast
  from a b c show ?thesis by simp
qed



text \<open>
  With Redis unreachable, a resolution of a non-empty code does not return, whatever the
  record store holds, and does not read the record store; a creation that reaches the
  persist step persists its Link and does not return.
\<close>

lemma ResolveUrl_execute_awaited_unreachable:
  "code \<noteq> [] \<Longrightarrow> ResolveUrl_execute_awaited True a w code rd = (NeverSettles, w)"
  by (simp add: ResolveUrl_execute_awaited_def getFromCache_awaited_def
      cacheRepository_get_awaited_def)

lemma CreateShortUrl_execute_awaited_unreachable:
  assumes "findByOriginalUrl w (normalizeUrl (originalUrl inp)) = Inr None"
    and "selectShortCode w (customAlias inp) = Some (Inr c, ws)"
    and "new_Url parses
       \<lparr>originalUrl = normalizeUrl (originalUrl inp), customAlias = customAlias inp,
        userId = userId inp, expiresAt = expiresAt inp,
        shortCode = c, createdAt = now ws, isActive = True\<rparr> = Inr u"
    and "create ws u = (Inr l, wc)"
  shows "CreateShortUrl_execute_awaited True parses w inp = Some (NeverSettles, wc)"
    and "urls wc = urls w @ [l]"
proof -
  show "CreateShortUrl_execute_awaited True parses w inp = Some (NeverSettles, wc)"
    using assms
    by (simp add: CreateShortUrl_execute_awaited_def CreateShortUrl_cacheUrl_awaited_def
        cacheRepository_set_awaited_def)
  show "urls wc = urls w @ [l]"
    using create_Inr(2) [OF assms(4)] selectShortCode_fields(1) [OF assms(2)] by simp
qed


section \<open>Referrer statistics\<close>

text \<open>
  What the pipeline gets right: the rows come in descending order of count, and the counts
  add up to the number of clicks recorded for the code.
\<close>

lemma sum_list_groupCount: "sum_list (map snd (groupCount xs)) = length xs"
proof -
  have "sum_list (map snd (groupCount xs)) = sum_list (map (count_list xs) (remdups xs))"
    by (simp add: groupCount_def comp_def)
  also have "\<dots> = sum (count_list xs) (set xs)"
    by (simp add: sum_list_distinct_conv_sum_set)
  also have "\<dots> = length xs"
    by (rule sum_count_set) simp_all
  finally show ?thesis .
qed

lemma sum_list_insort_key:
  "sum_list (map g (insort_key f x xs)) = (g x :: nat) + sum_list (map g xs)"
  by (induction xs) simp_all

lemma sum_list_sort_key: "sum_list (map g (sort_key f xs)) = (sum_list (map g xs) :: nat)"
  by (induction xs) (simp_all add: sum_list_insort_key)

lemma getReferrerStats_rows:
  assumes "getReferrerStats w code = Inr rows"
  shows "sorted (rev (map snd rows))"
    and "sum_list (map snd rows) = length (filter (\<lambda>c. click_shortCode c = code) (analytics w))"
proof -
  let ?m = "filter (\<lambda>c. click_shortCode c = code) (analytics w)"
  let ?p = "map (\<lambda>(k, n). (ifNull k ''Direct/None'', n)) (groupCount (map click_referrer ?m))"
  let ?f = "\<lambda>(r :: string, n :: nat). - int n"
  let ?s = "sort_key ?f ?p"
  from assms have rows: "rows = map (\<lambda>(r, n). (orElse r ''Direct/None'', n)) ?s"
    by (auto simp: getReferrerStats_def Let_def split: if_splits)
  have snd_rows: "map snd rows = map snd ?s"
    by (simp add: rows comp_def case_prod_beta)
  have f: "?f = (\<lambda>x. - int (snd x))" by (simp add: case_prod_unfold)
  have "sorted (map ?f ?s)" by (rule sorted_sort_key)
  then have "sorted (map (\<lambda>n. - int n) (map snd ?s))"
    by (simp add: f comp_def)
  moreover have "sorted (map (\<lambda>n. - int n) ns) \<Longrightarrow> sorted (rev ns)" for ns :: "nat list"
    by (induction ns) (auto simp: sorted_append)
  ultimately have "sorted (rev (map snd ?s))" by blast
  then show "sorted (rev (map snd rows))" by (simp add: snd_rows)
  have "sum_list (map snd ?s) = sum_list (map snd ?p)"
    by (rule sum_list_sort_key)
  also have "map snd ?p = map snd (groupCount (map click_referrer ?m))"
    by (simp add: comp_def case_prod_beta)
  finally show "sum_list (map snd rows) = length ?m"
    by (simp add: snd_rows sum_list_groupCount)
qed

text \<open>
  C10, at a failing input.  Three clicks on one code, two without a referrer and one with
  the empty string as referrer: \<^verbatim>\<open>$group\<close> keeps \<^verbatim>\<open>null\<close> and the empty string apart, and both
  groups are renamed afterwards, so the result has two rows called \<open>Direct/None\<close> instead of
  one row counting all three clicks.
\<close>

theorem getReferrerStats_two_direct_rows:
  "getReferrerStats ((sampleWorld [sampleLink])\<lparr>analytics := directClicks\<rparr>) ''abc1234''
     = Inr [(''Direct/None'', 2), (''Direct/None'', 1)] \<and>
   fst (GetUrlAnalytics_execute_referrers
          ((sampleWorld [sampleLink])\<lparr>analytics := directClicks\<rparr>) ''abc1234'' ''{}'')
     = Inr [(''Direct/None'', 2), (''Direct/None'', 1)]"
proof -
  let ?w = "(sampleWorld [sampleLink])\<lparr>analytics := directClicks\<rparr>"
  have s: "getReferrerStats ?w ''abc1234'' = Inr [(''Direct/None'', 2), (''Direct/None'', 1)]"
    by (simp add: getReferrerStats_def sampleWorld_def directClicks_def groupCount_def
        ifNull_def orElse_def)
  have e: "shortCodeExists ?w ''abc1234'' = Inr True"
    by (simp add: shortCodeExists_def trim_abc1234 sample_defs)
  have c: "analytics_getFromCache ?w k = None" for k
    by (simp add: analytics_getFromCache_def sampleWorld_def)
  show ?thesis
    by (simp add: s e c GetUrlAnalytics_execute_referrers_def)
qed

end
